theory Spec2Isabelle
  imports Complex_Main "HOL-Library.Sublist" "HOL-Library.AList" "HOL-Library.Log_Nat"
begin

section \<open>Strings\<close>

text \<open>
  A Python \<open>str\<close> is a sequence of code points. The embedding covers the code points
  U+0000 .. U+00FF: a \<^typ>\<open>char\<close> is the code point with the same number, so that
  \<open>CHR 0xE5\<close> is the Danish letter a-ring. Every keyword of the configuration tables of
  \<open>parser.py\<close> lies in that range, apart from the euro sign of the currency pattern,
  which no string of the range contains. The functions below are Python's on that range.
\<close>

type_synonym pystr = string

definition aring :: char where "aring = CHR 0xE5"
definition aelig :: char where "aelig = CHR 0xE6"
definition oslash :: char where "oslash = CHR 0xF8"
definition sup2 :: char where "sup2 = CHR 0xB2"

text \<open>\<open>str.isspace\<close> on one code point (also the class \<open>\s\<close> of \<open>re\<close>).\<close>

definition isspace :: "char \<Rightarrow> bool" where
  "isspace c = (let n = (of_char c :: nat) in
     (9 \<le> n \<and> n \<le> 13) \<or> (28 \<le> n \<and> n \<le> 32) \<or> n = 133 \<or> n = 160)"

text \<open>The class \<open>\d\<close> of \<open>re\<close>, and the digits \<open>float\<close> accepts.\<close>

definition isdigit :: "char \<Rightarrow> bool" where
  "isdigit c = (let n = (of_char c :: nat) in 48 \<le> n \<and> n \<le> 57)"

text \<open>\<open>str.lower\<close>: A..Z and the upper-case letters U+00C0..U+00DE (not the
  multiplication sign U+00D7) move up by 32.\<close>

definition lower_char :: "char \<Rightarrow> char" where
  "lower_char c = (let n = (of_char c :: nat) in
     if (65 \<le> n \<and> n \<le> 90) \<or> (192 \<le> n \<and> n \<le> 222 \<and> n \<noteq> 215)
     then char_of (n + 32) else c)"

definition lower :: "pystr \<Rightarrow> pystr" where
  "lower s = map lower_char s"

definition lstrip :: "pystr \<Rightarrow> pystr" where
  "lstrip s = dropWhile isspace s"

definition rstrip :: "pystr \<Rightarrow> pystr" where
  "rstrip s = rev (dropWhile isspace (rev s))"

definition strip :: "pystr \<Rightarrow> pystr" where
  "strip s = rstrip (lstrip s)"

text \<open>\<open>a in b\<close> on strings: \<open>a\<close> is a contiguous part of \<open>b\<close>.\<close>

definition contains :: "pystr \<Rightarrow> pystr \<Rightarrow> bool" where
  "contains b a = sublist a b"

text \<open>\<open>any(k in s for k in keywords)\<close>, the shape of every keyword loop of the parser.\<close>

definition any_keyword_in :: "pystr list \<Rightarrow> pystr \<Rightarrow> bool" where
  "any_keyword_in keywords s = list_ex (contains s) keywords"

text \<open>\<open>s.replace(c, '')\<close> and \<open>s.replace(c, d)\<close> for one-character patterns.\<close>

definition remove_char :: "char \<Rightarrow> pystr \<Rightarrow> pystr" where
  "remove_char c s = filter (\<lambda>x. x \<noteq> c) s"

definition replace_char :: "char \<Rightarrow> char \<Rightarrow> pystr \<Rightarrow> pystr" where
  "replace_char c d s = map (\<lambda>x. if x = c then d else x) s"

text \<open>\<open>s.split(c)\<close> for a one-character separator: never the empty list.\<close>

fun split_char :: "char \<Rightarrow> pystr \<Rightarrow> pystr list" where
  "split_char c [] = [[]]"
| "split_char c (x # xs) =
     (if x = c then [] # split_char c xs
      else (case split_char c xs of
              [] \<Rightarrow> [[x]]
            | p # ps \<Rightarrow> (x # p) # ps))"

text \<open>\<open>str(n)\<close> for a natural number.\<close>

fun digits_of :: "nat \<Rightarrow> nat \<Rightarrow> pystr" where
  "digits_of 0 n = []"
| "digits_of (Suc fuel) n =
     (if n < 10 then [char_of (48 + n)]
      else digits_of fuel (n div 10) @ [char_of (48 + n mod 10)])"

definition str_nat :: "nat \<Rightarrow> pystr" where
  "str_nat n = digits_of (Suc n) n"

section \<open>Configuration tables\<close>

datatype error_type =
    FileNotFound | InvalidFileType | PasswordProtected | NoHeaderFound
  | NoDataFound | OcrFailed | CorruptedFile

text \<open>A \<open>ParseError\<close>: its kind and its message (\<open>None\<close>: the default message).\<close>

type_synonym parse_error = "error_type \<times> pystr option"

definition raise_error :: "error_type \<Rightarrow> parse_error + 'a" where
  "raise_error e = Inl (e, None)"

definition HEADER_KEYWORDS :: "pystr list" where
  "HEADER_KEYWORDS =
   [''lejem'' @ [aring] @ ''l'', ''lejnr'', ''areal'', ''m2'', ''kvm'', ''leje'',
    [aring] @ ''rlig'',
    ''nr'', ''bel'', ''etage'', ''bem'', ''bem'' @ [aelig] @ ''rkning'', ''reg'', ''regulering'',
    ''start'', ''indflytning'', ''type'', ''anvendelse'',
    ''unit_id'', ''size_sqm'', ''sqm'', ''area'', ''rent'', ''floor'', ''address'',
    ''zipcode'', ''postal'', ''door'', ''rooms'', ''lease'', ''tenant'']"

datatype field_tag =
    Unit_id | Sqm | Annual_rent | Floor | Unit_type | Lease_start | Lease_end
  | Notes | Rent_adjustment | Address | Postal_code | Door | Rooms | Tenant_name
  | Unit_status

text \<open>The dictionary \<open>COLUMN_MAPPING\<close> in its declaration order (a Python dictionary
  iterates in insertion order); its keys are pairwise distinct.\<close>

definition COLUMN_MAPPING :: "(pystr \<times> field_tag) list" where
  "COLUMN_MAPPING =
   [(''lejnr'', Unit_id),
    (''lejem'' @ [aring] @ ''l'', Unit_id),
    (''lejenr'', Unit_id),
    (''lejem'' @ [aring] @ ''lsnr'', Unit_id),
    (''nr'', Unit_id),
    (''unit_id'', Unit_id),
    (''areal'', Sqm),
    (''m2'', Sqm),
    (''kvm'', Sqm),
    (''m'' @ [sup2], Sqm),
    (''kvadratmeter'', Sqm),
    (''size_sqm'', Sqm),
    (''sqm'', Sqm),
    (''area'', Sqm),
    (''size'', Sqm),
    (''leje'', Annual_rent),
    ([aring] @ ''rlig'', Annual_rent),
    ([aring] @ ''rligleje'', Annual_rent),
    ([aring] @ ''rlig leje'', Annual_rent),
    (''husleje'', Annual_rent),
    (''rent_current_gri'', Annual_rent),
    (''rent_current'', Annual_rent),
    (''annual_rent'', Annual_rent),
    (''rent'', Annual_rent),
    (''gri'', Annual_rent),
    (''bel'', Floor),
    (''etage'', Floor),
    (''beliggenhed'', Floor),
    (''unit_floor'', Floor),
    (''floor'', Floor),
    (''type'', Unit_type),
    (''anvendelse'', Unit_type),
    (''lejem'' @ [aring] @ ''lstype'', Unit_type),
    (''unit_type'', Unit_type),
    (''start'', Lease_start),
    (''indflytning'', Lease_start),
    (''startdato'', Lease_start),
    (''indflytningsdato'', Lease_start),
    (''lease_start'', Lease_start),
    (''lease_end'', Lease_end),
    (''slutdato'', Lease_end),
    (''fraflytning'', Lease_end),
    (''bem'', Notes),
    (''bem'' @ [aelig] @ ''rkning'', Notes),
    (''bem'' @ [aelig] @ ''rkninger'', Notes),
    (''note'', Notes),
    (''noter'', Notes),
    (''notes'', Notes),
    (''reg'', Rent_adjustment),
    (''regulering'', Rent_adjustment),
    (''lejeregulering'', Rent_adjustment),
    (''unit_address'', Address),
    (''address'', Address),
    (''adresse'', Address),
    (''unit_zipcode'', Postal_code),
    (''zipcode'', Postal_code),
    (''postal_code'', Postal_code),
    (''postnr'', Postal_code),
    (''postnummer'', Postal_code),
    (''unit_door'', Door),
    (''door'', Door),
    (''d'' @ [oslash] @ ''r'', Door),
    (''rooms_amount'', Rooms),
    (''rooms'', Rooms),
    (''v'' @ [aelig] @ ''relser'', Rooms),
    (''tenant_name1'', Tenant_name),
    (''tenant_name'', Tenant_name),
    (''lejer'', Tenant_name),
    (''lejernavn'', Tenant_name),
    (''units_status'', Unit_status),
    (''unit_status'', Unit_status),
    (''status'', Unit_status),
    (''lejestatus'', Unit_status),
    (''udlejningsstatus'', Unit_status)]"

definition END_ROW_KEYWORDS :: "pystr list" where
  "END_ROW_KEYWORDS = [''total'', ''sum'', ''i alt'', ''ialt'', ''samlet'', ''subtotal'']"

definition UNIT_TYPE_BOLIG :: "pystr list" where
  "UNIT_TYPE_BOLIG =
   [''apartment'', ''residential'', ''bolig'', ''lejlighed'', ''v'' @ [aelig] @ ''relse'', ''room'']"

definition UNIT_TYPE_ERHVERV :: "pystr list" where
  "UNIT_TYPE_ERHVERV =
   [''commercial'', ''retail'', ''office'', ''erhverv'', ''kontor'', ''butik'', ''lager'',
    ''warehouse'']"

definition UNIT_TYPE_PARKERING :: "pystr list" where
  "UNIT_TYPE_PARKERING = [''parking'', ''parkering'', ''p-plads'', ''garage'', ''carport'']"

definition VACANCY_KEYWORDS :: "pystr list" where
  "VACANCY_KEYWORDS =
   [''vacant'', ''ledig'', ''tom'', ''fraflyttet'', ''empty'', ''available'', ''til leje'']"

section \<open>Row categorizer\<close>

datatype category = bolig | erhverv | parkering | andet

definition categorize_unit_type :: "pystr \<Rightarrow> category" where
  "categorize_unit_type unit_type_value =
     (if unit_type_value = [] then andet
      else let val_lower = strip (lower unit_type_value) in
        if any_keyword_in UNIT_TYPE_BOLIG val_lower then bolig
        else if any_keyword_in UNIT_TYPE_ERHVERV val_lower then erhverv
        else if any_keyword_in UNIT_TYPE_PARKERING val_lower then parkering
        else andet)"

definition is_unit_vacant :: "pystr \<Rightarrow> bool" where
  "is_unit_vacant status_value =
     (if status_value = [] then False
      else any_keyword_in VACANCY_KEYWORDS (strip (lower status_value)))"

section \<open>Column mapper\<close>

text \<open>A cell of a table as the readers deliver it: \<open>None\<close>, or a scalar, which the parser
  only ever looks at through \<open>str(cell)\<close>; \<open>Some s\<close> is the cell whose \<open>str\<close> is
  \<open>s\<close>.\<close>

type_synonym cell = "pystr option"
type_synonym table_row = "cell list"

text \<open>The partial match of \<open>map_columns\<close>: the first entry, in declaration order, whose key is
  part of the header or has the header as a part.\<close>

fun partial_match :: "(pystr \<times> field_tag) list \<Rightarrow> pystr \<Rightarrow> field_tag option" where
  "partial_match [] header_lower = None"
| "partial_match ((danish, standard) # rest) header_lower =
     (if contains header_lower danish \<or> contains danish header_lower then Some standard
      else partial_match rest header_lower)"

definition map_header :: "pystr \<Rightarrow> field_tag option" where
  "map_header header_lower =
     (case map_of COLUMN_MAPPING header_lower of
        Some standard \<Rightarrow> Some standard
      | None \<Rightarrow> partial_match COLUMN_MAPPING header_lower)"

text \<open>The result dictionary is an association list in insertion order; assigning to a key
  that is present keeps its place (\<^const>\<open>AList.update\<close>).\<close>

fun map_columns_loop ::
  "(pystr \<times> field_tag) list \<Rightarrow> table_row \<Rightarrow> (pystr \<times> field_tag) list" where
  "map_columns_loop mapping [] = mapping"
| "map_columns_loop mapping (None # headers) = map_columns_loop mapping headers"
| "map_columns_loop mapping (Some header # headers) =
     (let header_str = strip header; header_lower = lower header_str in
      case map_header header_lower of
        Some standard \<Rightarrow> map_columns_loop (AList.update header_str standard mapping) headers
      | None \<Rightarrow> map_columns_loop mapping headers)"

definition map_columns :: "table_row \<Rightarrow> (pystr \<times> field_tag) list" where
  "map_columns headers = map_columns_loop [] headers"

section \<open>Floating-point numbers\<close>

text \<open>
  A Python \<open>float\<close> is an IEEE 754 binary64 number. \<open>Fin x\<close> is the finite double of value
  \<open>x\<close>; the two zeros, which Python's \<open>==\<close>, \<open><\<close> and arithmetic on finite values do
  not tell apart, are one value. Every operation rounds its exact result to the nearest
  double, a tie to the one with an even significand (\<open>to_double\<close>): 53 bits of significand,
  exponents from \<open>-1022\<close> to \<open>1023\<close>, subnormal numbers below, infinity from \<open>2 ^ 1024\<close> on.
\<close>

datatype pyfloat = Fin rat | PosInf | NegInf | NaN

definition pow2 :: "int \<Rightarrow> rat" where
  "pow2 e = (if 0 \<le> e then 2 ^ nat e else 1 / 2 ^ nat (- e))"

text \<open>The exponent \<open>e\<close> with \<open>2 ^ e \<le> a < 2 ^ (e + 1)\<close>, for \<open>a > 0\<close>.\<close>

definition ilog2 :: "rat \<Rightarrow> int" where
  "ilog2 a =
     (case quotient_of a of (p, q) \<Rightarrow>
        let d = bitlen p - bitlen q in if pow2 d \<le> a then d else d - 1)"

definition round_half_even :: "rat \<Rightarrow> int" where
  "round_half_even x =
     (let f = \<lfloor>x\<rfloor>; d = x - of_int f in
      if d < 1 / 2 then f else if 1 / 2 < d then f + 1 else if even f then f else f + 1)"

definition to_double :: "rat \<Rightarrow> pyfloat" where
  "to_double x =
     (if x = 0 then Fin 0
      else let e = ilog2 \<bar>x\<bar> in
        if 1024 \<le> e then (if 0 < x then PosInf else NegInf)
        else let q = pow2 (max e (- 1022) - 52);
                 n = round_half_even (\<bar>x\<bar> / q)
             in if e = 1023 \<and> n = 2 ^ 53 then (if 0 < x then PosInf else NegInf)
                else Fin (if 0 < x then of_int n * q else - (of_int n * q)))"

text \<open>\<open>a + b\<close> and \<open>a / b\<close> on floats. The parser divides by an area it has tested to be
  positive and by a count it has tested to be positive, so the \<open>ZeroDivisionError\<close> of a zero
  divisor is never raised; the model gives \<open>NaN\<close> there.\<close>

fun fadd :: "pyfloat \<Rightarrow> pyfloat \<Rightarrow> pyfloat" where
  "fadd (Fin a) (Fin b) = to_double (a + b)"
| "fadd NaN y = NaN"
| "fadd x NaN = NaN"
| "fadd PosInf NegInf = NaN"
| "fadd NegInf PosInf = NaN"
| "fadd PosInf y = PosInf"
| "fadd NegInf y = NegInf"
| "fadd x PosInf = PosInf"
| "fadd x NegInf = NegInf"

fun fdiv :: "pyfloat \<Rightarrow> pyfloat \<Rightarrow> pyfloat" where
  "fdiv (Fin a) (Fin b) = (if b = 0 then NaN else to_double (a / b))"
| "fdiv NaN y = NaN"
| "fdiv x NaN = NaN"
| "fdiv (Fin a) PosInf = Fin 0"
| "fdiv (Fin a) NegInf = Fin 0"
| "fdiv PosInf (Fin b) = (if b = 0 then NaN else if 0 < b then PosInf else NegInf)"
| "fdiv NegInf (Fin b) = (if b = 0 then NaN else if 0 < b then NegInf else PosInf)"
| "fdiv PosInf y = NaN"
| "fdiv NegInf y = NaN"

text \<open>\<open>x > 0\<close> and \<open>x == 0\<close> on floats: both are false of \<open>NaN\<close>.\<close>

fun is_positive :: "pyfloat \<Rightarrow> bool" where
  "is_positive (Fin a) = (0 < a)"
| "is_positive PosInf = True"
| "is_positive NegInf = False"
| "is_positive NaN = False"

fun is_zero :: "pyfloat \<Rightarrow> bool" where
  "is_zero (Fin a) = (a = 0)"
| "is_zero x = False"

text \<open>\<open>a == b\<close> on floats: \<open>NaN\<close> is equal to nothing, itself included.\<close>

definition float_eq :: "pyfloat \<Rightarrow> pyfloat \<Rightarrow> bool" where
  "float_eq a b = (a \<noteq> NaN \<and> b \<noteq> NaN \<and> a = b)"

text \<open>\<open>round(x, 2)\<close>: the exact value of the double rounded to the nearest hundredth, a tie
  to the even one, and that decimal number as a double; an infinity and \<open>NaN\<close> are returned
  as they are.\<close>

fun round2 :: "pyfloat \<Rightarrow> pyfloat" where
  "round2 (Fin x) = to_double (of_int (round_half_even (x * 100)) / 100)"
| "round2 x = x"

text \<open>\<open>float(i)\<close> for an integer: its nearest double, and \<open>OverflowError\<close> when that would
  be an infinity.\<close>

datatype py_exception = OverflowError

definition float_of_int :: "int \<Rightarrow> py_exception + pyfloat" where
  "float_of_int i =
     (case to_double (of_int i) of
        Fin x \<Rightarrow> Inr (Fin x)
      | _ \<Rightarrow> Inl OverflowError)"

section \<open>Numeric normalizer\<close>

text \<open>
  \<open>float(s)\<close> for a string is modelled from the grammar Python documents for it (white space
  around, a sign, digits with single underscores between them, a point, an exponent): the
  decimal number is read exactly and rounded to the nearest double, to an infinity when it is
  too large. The words \<open>inf\<close>, \<open>infinity\<close> and \<open>nan\<close> are left out: they hold no digit, and
  \<open>convert_danish_number\<close> returns \<open>None\<close> for a string without a digit before it calls
  \<open>float\<close>.
\<close>

fun digitpart :: "pystr \<Rightarrow> bool" where
  "digitpart [] = False"
| "digitpart [c] = isdigit c"
| "digitpart (c # d # s) =
     (isdigit c \<and> (if d = CHR ''_'' then digitpart s else digitpart (d # s)))"

definition digit_val :: "char \<Rightarrow> int" where
  "digit_val c = of_char c - 48"

definition dec_value :: "pystr \<Rightarrow> int" where
  "dec_value s = foldl (\<lambda>a c. 10 * a + digit_val c) 0 (filter isdigit s)"

definition num_digits :: "pystr \<Rightarrow> nat" where
  "num_digits s = length (filter isdigit s)"

text \<open>\<open>[digitpart] "." digitpart | digitpart ["."]\<close>: the value as a numerator and the
  number of decimals.\<close>

definition parse_number :: "pystr \<Rightarrow> (int \<times> nat) option" where
  "parse_number m =
     (let ip = takeWhile (\<lambda>c. c \<noteq> CHR ''.'') m;
          rest = dropWhile (\<lambda>c. c \<noteq> CHR ''.'') m
      in if rest = [] then (if digitpart ip then Some (dec_value ip, 0) else None)
         else let fp = tl rest in
           if (ip = [] \<or> digitpart ip) \<and> (fp = [] \<or> digitpart fp) \<and> \<not> (ip = [] \<and> fp = [])
           then Some (dec_value (ip @ fp), num_digits fp) else None)"

text \<open>\<open>("e" | "E") ["+" | "-"] digitpart\<close>, given without its first letter.\<close>

definition parse_exponent :: "pystr \<Rightarrow> int option" where
  "parse_exponent e =
     (case e of
        [] \<Rightarrow> None
      | c # r \<Rightarrow>
          if c = CHR ''-'' then (if digitpart r then Some (- dec_value r) else None)
          else if c = CHR ''+'' then (if digitpart r then Some (dec_value r) else None)
          else if digitpart e then Some (dec_value e) else None)"

definition scale10 :: "rat \<Rightarrow> int \<Rightarrow> rat" where
  "scale10 x e = (if 0 \<le> e then x * 10 ^ nat e else x / 10 ^ nat (- e))"

definition is_exp_mark :: "char \<Rightarrow> bool" where
  "is_exp_mark c = (c = CHR ''e'' \<or> c = CHR ''E'')"

text \<open>The exact value of an unsigned decimal number.\<close>

definition parse_unsigned :: "pystr \<Rightarrow> rat option" where
  "parse_unsigned s =
     (let m = takeWhile (\<lambda>c. \<not> is_exp_mark c) s;
          rest = dropWhile (\<lambda>c. \<not> is_exp_mark c) s
      in case parse_number m of
           None \<Rightarrow> None
         | Some (n, k) \<Rightarrow>
             if rest = [] then Some (of_int n / 10 ^ k)
             else (case parse_exponent (tl rest) of
                     None \<Rightarrow> None
                   | Some e \<Rightarrow> Some (scale10 (of_int n / 10 ^ k) e)))"

definition parse_decimal :: "pystr \<Rightarrow> rat option" where
  "parse_decimal s =
     (case strip s of
        [] \<Rightarrow> None
      | c # r \<Rightarrow>
          if c = CHR ''-'' then map_option uminus (parse_unsigned r)
          else if c = CHR ''+'' then parse_unsigned r
          else parse_unsigned (c # r))"

text \<open>\<open>float(s)\<close> inside \<open>try\<close>: \<open>None\<close> is the \<open>ValueError\<close>.\<close>

definition float_of_str :: "pystr \<Rightarrow> pyfloat option" where
  "float_of_str s = map_option to_double (parse_decimal s)"

text \<open>The value handed to \<open>convert_danish_number\<close>: \<open>None\<close>, an integer (a truth value is
  the integer 0 or 1), a float, or a string. An object of another type is turned into its
  \<open>str\<close> first, so it is a \<open>PStr\<close> as well.\<close>

datatype pyvalue = PNone | PInt int | PFloat pyfloat | PStr pystr

text \<open>\<open>re.sub(r'[kr\s\<euro>$]', '', value, flags=re.IGNORECASE)\<close>.\<close>

definition is_currency_char :: "char \<Rightarrow> bool" where
  "is_currency_char c =
     (c = CHR ''k'' \<or> c = CHR ''K'' \<or> c = CHR ''r'' \<or> c = CHR ''R'' \<or> isspace c \<or> c = CHR ''$'')"

definition remove_currency :: "pystr \<Rightarrow> pystr" where
  "remove_currency s = filter (\<lambda>c. \<not> is_currency_char c) s"

definition period_count :: "pystr \<Rightarrow> nat" where
  "period_count s = length (filter (\<lambda>c. c = CHR ''.'') s)"

text \<open>The rewriting of the separators, between the digit test and the call of \<open>float\<close>.\<close>

definition normalize_separators :: "pystr \<Rightarrow> pystr" where
  "normalize_separators v =
     (if CHR '','' \<in> set v then replace_char CHR '','' CHR ''.'' (remove_char CHR ''.'' v)
      else if period_count v = 1 then
        (let parts = split_char CHR ''.'' v in
         if length (parts ! 1) = 3 \<and> length (parts ! 0) \<le> 3 then remove_char CHR ''.'' v
         else v)
      else if period_count v > 1 then remove_char CHR ''.'' v
      else v)"

text \<open>The part of \<open>convert_danish_number\<close> that handles a string; it raises nothing.\<close>

definition convert_danish_str :: "pystr \<Rightarrow> pyfloat option" where
  "convert_danish_str s =
     (let v = strip s in
      if v = [] then None
      else let v' = remove_currency v in
        if \<not> list_ex isdigit v' then None
        else float_of_str (normalize_separators v'))"

text \<open>\<open>convert_danish_number\<close>: \<open>float(value)\<close> for an integer or a float is outside the
  \<open>try\<close>, so its \<open>OverflowError\<close> leaves the function.\<close>

definition convert_danish_number :: "pyvalue \<Rightarrow> py_exception + pyfloat option" where
  "convert_danish_number v =
     (case v of
        PNone \<Rightarrow> Inr None
      | PInt i \<Rightarrow> map_sum id Some (float_of_int i)
      | PFloat x \<Rightarrow> Inr (Some x)
      | PStr s \<Rightarrow> Inr (convert_danish_str s))"

text \<open>The result of the normalizer, handed to it again, and Python's \<open>==\<close> on two results.\<close>

definition as_value :: "pyfloat option \<Rightarrow> pyvalue" where
  "as_value r = (case r of None \<Rightarrow> PNone | Some x \<Rightarrow> PFloat x)"

definition result_eq :: "pyfloat option \<Rightarrow> pyfloat option \<Rightarrow> bool" where
  "result_eq a b =
     (case (a, b) of
        (None, None) \<Rightarrow> True
      | (Some x, Some y) \<Rightarrow> float_eq x y
      | _ \<Rightarrow> False)"

section \<open>Header locator\<close>

text \<open>\<open>str(cell).lower().strip() if cell is not None else ""\<close>.\<close>

definition cell_text :: "cell \<Rightarrow> pystr" where
  "cell_text c = (case c of None \<Rightarrow> [] | Some s \<Rightarrow> strip (lower s))"

text \<open>The score of one row: one point for each cell holding a keyword, one more for three
  or more cells that are not empty.\<close>

definition row_score :: "table_row \<Rightarrow> nat" where
  "row_score row =
     (let cells = map cell_text row;
          score = length (filter (any_keyword_in HEADER_KEYWORDS) cells);
          non_empty = length (filter (\<lambda>c. c \<noteq> []) cells)
      in if 3 \<le> non_empty then score + 1 else score)"

text \<open>The loop of \<open>find_header_row\<close> over \<open>enumerate(rows[:max_rows])\<close>; its state is
  \<open>(best_score, best_row_idx, best_row)\<close>, at first \<open>(0, -1, None)\<close>.\<close>

type_synonym best = "nat \<times> int \<times> table_row option"

fun header_scan :: "best \<Rightarrow> nat \<Rightarrow> table_row list \<Rightarrow> best" where
  "header_scan b idx [] = b"
| "header_scan (best_score, best_row_idx, best_row) idx (row # rows) =
     (if row = [] then header_scan (best_score, best_row_idx, best_row) (Suc idx) rows
      else if best_score < row_score row
        then header_scan (row_score row, int idx, Some row) (Suc idx) rows
        else header_scan (best_score, best_row_idx, best_row) (Suc idx) rows)"

text \<open>With a best score of 2 or more a row has been stored, so the last case below is never
  taken (lemma \<open>header_scan_stored\<close>).\<close>

definition find_header_row_upto :: "nat \<Rightarrow> table_row list \<Rightarrow> parse_error + (nat \<times> table_row)" where
  "find_header_row_upto max_rows rows =
     (case header_scan (0, - 1, None) 0 (take max_rows rows) of
        (best_score, best_row_idx, best_row) \<Rightarrow>
          if best_score < 2 then raise_error NoHeaderFound
          else (case best_row of
                  Some r \<Rightarrow> Inr (nat best_row_idx, r)
                | None \<Rightarrow> raise_error NoHeaderFound))"

definition find_header_row :: "table_row list \<Rightarrow> parse_error + (nat \<times> table_row)" where
  "find_header_row rows = find_header_row_upto 15 rows"

section \<open>Table segmenter\<close>

definition cell_nonblank :: "cell \<Rightarrow> bool" where
  "cell_nonblank c = (case c of None \<Rightarrow> False | Some s \<Rightarrow> strip s \<noteq> [])"

definition cell_has_end_keyword :: "cell \<Rightarrow> bool" where
  "cell_has_end_keyword c =
     (case c of None \<Rightarrow> False
      | Some s \<Rightarrow> any_keyword_in END_ROW_KEYWORDS (strip (lower s)))"

definition is_end_row :: "table_row \<Rightarrow> bool" where
  "is_end_row row =
     (if row = [] then True
      else if filter cell_nonblank row = [] then True
      else list_ex cell_has_end_keyword (take 3 row))"

definition get_rent_type_from_sheet :: "pystr \<Rightarrow> pystr option" where
  "get_rent_type_from_sheet sheet_name =
     (let name_lower = lower sheet_name in
      if contains name_lower ''parkering'' \<or> contains name_lower ''p-plads'' then Some ''parkering''
      else if contains name_lower ''erhverv'' \<or> contains name_lower ''commercial''
        then Some ''erhverv''
        else None)"

section \<open>Aggregator\<close>

text \<open>One extracted row: the dictionary with the keys \<open>raw\<close>, \<open>source\<close>, \<open>row_num\<close>
  and \<open>rent_type\<close>.\<close>

record row =
  raw :: "pystr list"
  source :: pystr
  row_num :: nat
  rent_type :: "pystr option"

record cat_stats =
  cat_count :: nat
  cat_sqm :: pyfloat
  cat_rent :: pyfloat
  cat_vacant :: nat

record suspicious =
  s_row_num :: nat
  s_issue :: pystr
  s_value :: int
  s_unit :: pystr

text \<open>The local variables of \<open>calculate_summary_stats\<close> that its loop updates.\<close>

record acc =
  acc_total_sqm :: pyfloat
  acc_total_rent :: pyfloat
  acc_total_vacant :: nat
  acc_units_with_sqm :: nat
  acc_units_with_rent :: nat
  acc_rent_per_sqm_sum :: pyfloat
  acc_rent_per_sqm_count :: nat
  acc_breakdown :: "category \<Rightarrow> cat_stats"
  acc_rows_missing_sqm :: "nat list"
  acc_rows_missing_rent :: "nat list"
  acc_rows_suspicious :: "suspicious list"

record summary =
  total_units :: nat
  total_sqm :: pyfloat
  total_annual_rent :: pyfloat
  avg_rent_per_sqm :: pyfloat
  units_with_rent :: nat
  units_with_sqm :: nat
  total_vacant :: nat
  unit_type_breakdown :: "category \<Rightarrow> cat_stats"

record data_quality =
  rows_missing_sqm :: "nat list"
  rows_missing_rent :: "nat list"
  rows_suspicious :: "suspicious list"
  unmapped_columns :: "pystr list"

text \<open>The reverse mapping \<open>standard_to_idx\<close>: a later column with the same tag replaces an
  earlier one.\<close>

fun standard_to_idx_loop ::
  "(field_tag \<rightharpoonup> nat) \<Rightarrow> nat \<Rightarrow> pystr list \<Rightarrow> (pystr \<times> field_tag) list \<Rightarrow> (field_tag \<rightharpoonup> nat)" where
  "standard_to_idx_loop m col_idx [] column_mapping = m"
| "standard_to_idx_loop m col_idx (col_name # cols) column_mapping =
     (case map_of column_mapping col_name of
        Some standard_name \<Rightarrow>
          standard_to_idx_loop (m(standard_name \<mapsto> col_idx)) (Suc col_idx) cols column_mapping
      | None \<Rightarrow> standard_to_idx_loop m (Suc col_idx) cols column_mapping)"

definition standard_to_idx :: "pystr list \<Rightarrow> (pystr \<times> field_tag) list \<Rightarrow> (field_tag \<rightharpoonup> nat)" where
  "standard_to_idx columns column_mapping = standard_to_idx_loop Map.empty 0 columns column_mapping"

text \<open>\<open>raw[idx]\<close> under the guard \<open>idx is not None and idx < len(raw)\<close>.\<close>

definition cell_at :: "nat option \<Rightarrow> pystr list \<Rightarrow> pystr option" where
  "cell_at idx r =
     (case idx of None \<Rightarrow> None | Some i \<Rightarrow> if i < length r then Some (r ! i) else None)"

definition positive :: "pyfloat option \<Rightarrow> bool" where
  "positive v = (case v of None \<Rightarrow> False | Some x \<Rightarrow> is_positive x)"

text \<open>\<open>convert_danish_number(raw[idx])\<close>: the cells of \<open>raw\<close> are strings, for which
  \<open>convert_danish_number\<close> is \<open>convert_danish_str\<close> and raises nothing.\<close>

definition value_at :: "nat option \<Rightarrow> pystr list \<Rightarrow> pyfloat option" where
  "value_at idx r =
     (case cell_at idx r of None \<Rightarrow> None | Some c \<Rightarrow> convert_danish_str c)"

definition count_sqm :: "nat \<Rightarrow> pyfloat option \<Rightarrow> acc \<Rightarrow> acc" where
  "count_sqm n sqm_value a =
     (if positive sqm_value
      then a\<lparr>acc_total_sqm := fadd (acc_total_sqm a) (the sqm_value),
             acc_units_with_sqm := acc_units_with_sqm a + 1\<rparr>
      else a\<lparr>acc_rows_missing_sqm := acc_rows_missing_sqm a @ [n]\<rparr>)"

definition count_rent :: "nat \<Rightarrow> pyfloat option \<Rightarrow> pyfloat option \<Rightarrow> acc \<Rightarrow> acc" where
  "count_rent n sqm_value rent_value a =
     (if positive rent_value
      then a\<lparr>acc_total_rent := fadd (acc_total_rent a) (the rent_value),
             acc_units_with_rent := acc_units_with_rent a + 1\<rparr>
      else if (case rent_value of None \<Rightarrow> False | Some x \<Rightarrow> is_zero x)
      then (let a' = a\<lparr>acc_rows_missing_rent := acc_rows_missing_rent a @ [n]\<rparr> in
            if positive sqm_value
            then a'\<lparr>acc_rows_suspicious := acc_rows_suspicious a' @
                      [\<lparr>s_row_num = n, s_issue = ''Zero rent'', s_value = 0, s_unit = ''kr''\<rparr>]\<rparr>
            else a')
      else a\<lparr>acc_rows_missing_rent := acc_rows_missing_rent a @ [n]\<rparr>)"

definition row_category :: "nat option \<Rightarrow> pystr list \<Rightarrow> category" where
  "row_category unit_type_idx r =
     (case cell_at unit_type_idx r of
        Some unit_type_value \<Rightarrow>
          categorize_unit_type (if unit_type_value \<noteq> [] then unit_type_value else [])
      | None \<Rightarrow> andet)"

definition count_category ::
  "category \<Rightarrow> pyfloat option \<Rightarrow> pyfloat option \<Rightarrow> acc \<Rightarrow> acc" where
  "count_category cat sqm_value rent_value a =
     (let b = acc_breakdown a;
          c0 = b cat;
          c1 = c0\<lparr>cat_count := cat_count c0 + 1\<rparr>;
          c2 = (if positive sqm_value then c1\<lparr>cat_sqm := fadd (cat_sqm c1) (the sqm_value)\<rparr> else c1);
          c3 = (if positive rent_value then c2\<lparr>cat_rent := fadd (cat_rent c2) (the rent_value)\<rparr> else c2)
      in a\<lparr>acc_breakdown := b(cat := c3)\<rparr>)"

definition count_vacancy :: "nat option \<Rightarrow> pystr list \<Rightarrow> category \<Rightarrow> acc \<Rightarrow> acc" where
  "count_vacancy unit_status_idx r cat a =
     (case cell_at unit_status_idx r of
        Some status_value \<Rightarrow>
          if is_unit_vacant (if status_value \<noteq> [] then status_value else [])
          then (let b = acc_breakdown a; c = b cat in
                a\<lparr>acc_breakdown := b(cat := c\<lparr>cat_vacant := cat_vacant c + 1\<rparr>),
                  acc_total_vacant := acc_total_vacant a + 1\<rparr>)
          else a
      | None \<Rightarrow> a)"

definition count_rent_per_sqm :: "pyfloat option \<Rightarrow> pyfloat option \<Rightarrow> acc \<Rightarrow> acc" where
  "count_rent_per_sqm sqm_value rent_value a =
     (if positive sqm_value \<and> positive rent_value
      then a\<lparr>acc_rent_per_sqm_sum :=
               fadd (acc_rent_per_sqm_sum a) (fdiv (the rent_value) (the sqm_value)),
             acc_rent_per_sqm_count := acc_rent_per_sqm_count a + 1\<rparr>
      else a)"

text \<open>The body of \<open>for row in rows\<close>.\<close>

definition summary_step ::
  "nat option \<Rightarrow> nat option \<Rightarrow> nat option \<Rightarrow> nat option \<Rightarrow> acc \<Rightarrow> row \<Rightarrow> acc" where
  "summary_step sqm_idx rent_idx unit_type_idx unit_status_idx a rw =
     (let r = raw rw;
          n = row_num rw;
          sqm_value = value_at sqm_idx r;
          rent_value = value_at rent_idx r;
          cat = row_category unit_type_idx r
      in count_rent_per_sqm sqm_value rent_value
           (count_vacancy unit_status_idx r cat
             (count_category cat sqm_value rent_value
               (count_rent n sqm_value rent_value
                 (count_sqm n sqm_value a)))))"

definition empty_stats :: cat_stats where
  "empty_stats = \<lparr>cat_count = 0, cat_sqm = Fin 0, cat_rent = Fin 0, cat_vacant = 0\<rparr>"

definition init_acc :: acc where
  "init_acc =
     \<lparr>acc_total_sqm = Fin 0, acc_total_rent = Fin 0, acc_total_vacant = 0,
      acc_units_with_sqm = 0, acc_units_with_rent = 0, acc_rent_per_sqm_sum = Fin 0,
      acc_rent_per_sqm_count = 0,
      acc_breakdown = (\<lambda>_. empty_stats), acc_rows_missing_sqm = [],
      acc_rows_missing_rent = [], acc_rows_suspicious = []\<rparr>"

definition summary_loop :: "pystr list \<Rightarrow> (pystr \<times> field_tag) list \<Rightarrow> row list \<Rightarrow> acc" where
  "summary_loop columns column_mapping rows =
     (let idx = standard_to_idx columns column_mapping in
      foldl (summary_step (idx Sqm) (idx Annual_rent) (idx Unit_type) (idx Unit_status))
        init_acc rows)"

definition round_stats :: "cat_stats \<Rightarrow> cat_stats" where
  "round_stats c = c\<lparr>cat_sqm := round2 (cat_sqm c), cat_rent := round2 (cat_rent c)\<rparr>"

text \<open>In \<open>rent_per_sqm_sum / rent_per_sqm_count\<close> the count is turned into a float: a
  count of rows is far below \<open>2 ^ 53\<close>, so the conversion is exact and cannot overflow.\<close>

definition calculate_summary_stats ::
  "row list \<Rightarrow> pystr list \<Rightarrow> (pystr \<times> field_tag) list \<Rightarrow> summary \<times> data_quality" where
  "calculate_summary_stats rows columns column_mapping =
     (let a = summary_loop columns column_mapping rows;
          avg = (if 0 < acc_rent_per_sqm_count a
                 then fdiv (acc_rent_per_sqm_sum a) (to_double (of_nat (acc_rent_per_sqm_count a)))
                 else Fin 0);
          unmapped = filter (\<lambda>col. col \<noteq> [] \<and> strip col \<noteq> [] \<and> map_of column_mapping col = None)
                       columns
      in (\<lparr>total_units = length rows,
           total_sqm = round2 (acc_total_sqm a),
           total_annual_rent = round2 (acc_total_rent a),
           avg_rent_per_sqm = round2 avg,
           units_with_rent = acc_units_with_rent a,
           units_with_sqm = acc_units_with_sqm a,
           total_vacant = acc_total_vacant a,
           unit_type_breakdown = (\<lambda>cat. round_stats (acc_breakdown a cat))\<rparr>,
          \<lparr>rows_missing_sqm = acc_rows_missing_sqm a,
           rows_missing_rent = acc_rows_missing_rent a,
           rows_suspicious = acc_rows_suspicious a,
           unmapped_columns = unmapped\<rparr>))"

section \<open>Orchestrator\<close>

subsection \<open>The outside world\<close>

text \<open>A call of an external collaborator either raises an exception, of which the parser
  reads the text \<open>str(e)\<close>, or returns.\<close>

datatype 'a attempt = Raised pystr | Returned 'a

type_synonym table = "table_row list"

text \<open>What the file system and the readers answer for a path: whether it exists, the
  workbook (its sheets in order, each with the outcome of reading its rows), the tables of
  each page of the PDF, and for the fallback the page images with the text recognised on
  each.\<close>

record world =
  path_exists :: "pystr \<Rightarrow> bool"
  load_workbook :: "pystr \<Rightarrow> (pystr \<times> table attempt) list attempt"
  extract_tables :: "pystr \<Rightarrow> table list list attempt"
  image_to_string :: "pystr \<Rightarrow> pystr attempt list attempt"

datatype file_type = Excel | Pdf

datatype confidence = High | Medium | Low

datatype source_info =
    Sheets "pystr list" "pystr list"
  | Pages nat nat bool

record parse_result =
  filename :: pystr
  file_type :: file_type
  source_info :: source_info
  header_row :: "nat option"
  columns :: "pystr list"
  column_mapping :: "(pystr \<times> field_tag) list"
  rows :: "row list"
  total_rows :: nat
  parse_warnings :: "pystr list"
  confidence :: confidence
  summary :: summary
  data_quality :: data_quality

text \<open>\<open>Path(p).name\<close> and \<open>Path(p).suffix\<close> of \<open>pathlib\<close> for a POSIX path: the last
  component that is neither empty nor a single point; its part from the last point on, when
  that point is neither its first nor its last character.\<close>

definition path_name :: "pystr \<Rightarrow> pystr" where
  "path_name p =
     (case filter (\<lambda>c. c \<noteq> [] \<and> c \<noteq> ''.'') (split_char CHR ''/'' p) of
        [] \<Rightarrow> []
      | c # cs \<Rightarrow> last (c # cs))"

definition path_suffix :: "pystr \<Rightarrow> pystr" where
  "path_suffix p =
     (let name = path_name p;
          after = rev (takeWhile (\<lambda>c. c \<noteq> CHR ''.'') (rev name))
      in if CHR ''.'' \<in> set name \<and> length after + 1 < length name \<and> after \<noteq> []
         then CHR ''.'' # after else [])"

definition detect_file_type :: "pystr \<Rightarrow> parse_error + file_type" where
  "detect_file_type file_path =
     (let ext = lower (path_suffix file_path) in
      if ext = ''.xlsx'' \<or> ext = ''.xls'' then Inr Excel
      else if ext = ''.pdf'' then Inr Pdf
      else raise_error InvalidFileType)"

text \<open>The handler of a failed opening, shared by both pipelines.\<close>

definition open_error :: "pystr \<Rightarrow> pystr \<Rightarrow> parse_error" where
  "open_error intro msg =
     (let error_msg = lower msg in
      if contains error_msg ''password'' \<or> contains error_msg ''encrypted''
      then (PasswordProtected, None)
      else (CorruptedFile, Some (intro @ msg)))"

text \<open>\<open>str(c) if c is not None else ""\<close>.\<close>

definition cell_str :: "cell \<Rightarrow> pystr" where
  "cell_str c = (case c of None \<Rightarrow> [] | Some s \<Rightarrow> s)"

definition non_empty_count :: "pystr list \<Rightarrow> nat" where
  "non_empty_count raw_data = length (filter (\<lambda>c. strip c \<noteq> []) raw_data)"

subsection \<open>Spreadsheet pipeline\<close>

text \<open>The loop over \<open>enumerate(data_rows)\<close> of one sheet: \<open>break\<close> at an end row.\<close>

fun excel_extract :: "pystr \<Rightarrow> pystr option \<Rightarrow> nat \<Rightarrow> nat \<Rightarrow> table \<Rightarrow> row list" where
  "excel_extract sheet_name rt header_idx row_offset [] = []"
| "excel_extract sheet_name rt header_idx row_offset (r # data_rows) =
     (if is_end_row r then []
      else let raw_data = map cell_str r in
        if non_empty_count raw_data < 2
        then excel_extract sheet_name rt header_idx (Suc row_offset) data_rows
        else \<lparr>raw = raw_data, source = sheet_name, row_num = header_idx + row_offset + 2,
              rent_type = rt\<rparr>
             # excel_extract sheet_name rt header_idx (Suc row_offset) data_rows)"

record excel_state =
  x_header_found :: bool
  x_header_row :: "nat option"
  x_columns :: "pystr list"
  x_column_mapping :: "(pystr \<times> field_tag) list"
  x_all_rows :: "row list"
  x_sheets_used :: "pystr list"
  x_warnings :: "pystr list"
  x_confidence :: confidence

definition warn :: "pystr \<Rightarrow> excel_state \<Rightarrow> excel_state" where
  "warn w st = st\<lparr>x_warnings := x_warnings st @ [w]\<rparr>"

definition sheet_warning :: "pystr \<Rightarrow> pystr \<Rightarrow> pystr" where
  "sheet_warning sheet_name what = ''Sheet '' @ [CHR 0x27] @ sheet_name @ [CHR 0x27] @ what"

text \<open>The body of \<open>for sheet_name in sheet_names\<close>.\<close>

definition excel_sheet :: "excel_state \<Rightarrow> pystr \<times> table attempt \<Rightarrow> excel_state" where
  "excel_sheet st sh =
     (case sh of (sheet_name, reading) \<Rightarrow>
      (case reading of
        Raised msg \<Rightarrow>
          (warn (sheet_warning sheet_name ('' error: '' @ msg)) st)\<lparr>x_confidence := Medium\<rparr>
      | Returned sheet_rows \<Rightarrow>
          if length sheet_rows < 3
          then warn (sheet_warning sheet_name '' skipped - insufficient rows'') st
          else (case find_header_row sheet_rows of
                  Inl e \<Rightarrow> warn (sheet_warning sheet_name '' skipped - no header found'') st
                | Inr (header_idx, header) \<Rightarrow>
                    let st1 = (if \<not> x_header_found st
                               then st\<lparr>x_header_row := Some (header_idx + 1),
                                       x_columns := map cell_str header,
                                       x_column_mapping := map_columns header,
                                       x_header_found := True\<rparr>
                               else st);
                        new_rows = excel_extract sheet_name (get_rent_type_from_sheet sheet_name)
                                     header_idx 0 (drop (header_idx + 1) sheet_rows);
                        st2 = st1\<lparr>x_all_rows := x_all_rows st1 @ new_rows\<rparr>
                    in if new_rows \<noteq> []
                       then st2\<lparr>x_sheets_used := x_sheets_used st2 @ [sheet_name]\<rparr>
                       else warn (sheet_warning sheet_name '' skipped - no data rows'') st2)))"

definition init_excel_state :: excel_state where
  "init_excel_state =
     \<lparr>x_header_found = False, x_header_row = None, x_columns = [], x_column_mapping = [],
      x_all_rows = [], x_sheets_used = [], x_warnings = [], x_confidence = High\<rparr>"

definition parse_excel :: "world \<Rightarrow> pystr \<Rightarrow> parse_error + parse_result" where
  "parse_excel w file_path =
     (case load_workbook w file_path of
        Raised msg \<Rightarrow> Inl (open_error ''Could not open file: '' msg)
      | Returned sheets \<Rightarrow>
          let st = foldl excel_sheet init_excel_state sheets in
          if \<not> x_header_found st then raise_error NoHeaderFound
          else if x_all_rows st = [] then raise_error NoDataFound
          else (case calculate_summary_stats (x_all_rows st) (x_columns st) (x_column_mapping st) of
                  (sm, dq) \<Rightarrow>
                    Inr \<lparr>filename = path_name file_path,
                         file_type = Excel,
                         source_info = Sheets (map fst sheets) (x_sheets_used st),
                         header_row = x_header_row st,
                         columns = x_columns st,
                         column_mapping = x_column_mapping st,
                         rows = x_all_rows st,
                         total_rows = length (x_all_rows st),
                         parse_warnings = x_warnings st,
                         confidence = x_confidence st,
                         summary = sm,
                         data_quality = dq\<rparr>))"

subsection \<open>PDF pipeline\<close>

text \<open>The truth value of a cell in \<open>if c\<close>: a PDF cell is \<open>None\<close> or a string, and a
  string is true when it is not empty.\<close>

definition truthy :: "cell \<Rightarrow> bool" where
  "truthy c = (case c of None \<Rightarrow> False | Some s \<Rightarrow> s \<noteq> [])"

text \<open>\<open>tuple(str(c).lower().strip() for c in header_row if c)\<close>, also taken of the first
  row of a later table.\<close>

definition header_sig :: "table_row \<Rightarrow> pystr list" where
  "header_sig r = map (\<lambda>c. strip (lower (cell_str c))) (filter truthy r)"

text \<open>\<open>tuple(c.lower().strip() for c in raw_data if c.strip())\<close>.\<close>

definition row_sig :: "pystr list \<Rightarrow> pystr list" where
  "row_sig raw_data = map (\<lambda>c. strip (lower c)) (filter (\<lambda>c. strip c \<noteq> []) raw_data)"

definition page_source :: "nat \<Rightarrow> pystr" where
  "page_source page_num = ''page_'' @ str_nat page_num"

text \<open>The loop over \<open>enumerate(data_rows)\<close> of one table: \<open>continue\<close> at an end row.\<close>

fun pdf_extract :: "nat \<Rightarrow> pystr list list \<Rightarrow> nat \<Rightarrow> table \<Rightarrow> row list" where
  "pdf_extract page_num seen_headers row_offset [] = []"
| "pdf_extract page_num seen_headers row_offset (r # data_rows) =
     (if is_end_row r then pdf_extract page_num seen_headers (Suc row_offset) data_rows
      else let raw_data = map cell_str r in
        if non_empty_count raw_data < 2
        then pdf_extract page_num seen_headers (Suc row_offset) data_rows
        else if row_sig raw_data \<in> set seen_headers
        then pdf_extract page_num seen_headers (Suc row_offset) data_rows
        else \<lparr>raw = raw_data, source = page_source page_num, row_num = row_offset + 1,
              rent_type = None\<rparr>
             # pdf_extract page_num seen_headers (Suc row_offset) data_rows)"

text \<open>The state of the loop over the tables. \<open>p_data_rows\<close> is the local variable
  \<open>data_rows\<close>, which keeps its value from one table to the next.\<close>

record pdf_state =
  p_header_found :: bool
  p_header_row :: "nat option"
  p_columns :: "pystr list"
  p_column_mapping :: "(pystr \<times> field_tag) list"
  p_seen_headers :: "pystr list list"
  p_data_rows :: table
  p_all_rows :: "row list"

definition pdf_collect :: "nat \<Rightarrow> pdf_state \<Rightarrow> pdf_state" where
  "pdf_collect page_num st =
     st\<lparr>p_all_rows := p_all_rows st @ pdf_extract page_num (p_seen_headers st) 0 (p_data_rows st)\<rparr>"

text \<open>The body of \<open>for table_info in all_tables\<close>.\<close>

definition pdf_table :: "pdf_state \<Rightarrow> nat \<times> table \<Rightarrow> pdf_state" where
  "pdf_table st table_info =
     (case table_info of (page_num, table_rows) \<Rightarrow>
      if \<not> p_header_found st
      then (case find_header_row table_rows of
              Inl e \<Rightarrow> st
            | Inr (header_idx, header) \<Rightarrow>
                pdf_collect page_num
                  (st\<lparr>p_header_row := Some (header_idx + 1),
                      p_columns := map cell_str header,
                      p_column_mapping := map_columns header,
                      p_header_found := True,
                      p_seen_headers := List.insert (header_sig header) (p_seen_headers st),
                      p_data_rows := drop (header_idx + 1) table_rows\<rparr>))
      else pdf_collect page_num
             (case table_rows of
                [] \<Rightarrow> st
              | first_row # others \<Rightarrow>
                  if header_sig first_row \<in> set (p_seen_headers st)
                  then st\<lparr>p_data_rows := others\<rparr>
                  else st\<lparr>p_data_rows := table_rows\<rparr>))"

definition init_pdf_state :: pdf_state where
  "init_pdf_state =
     \<lparr>p_header_found = False, p_header_row = None, p_columns = [], p_column_mapping = [],
      p_seen_headers = [], p_data_rows = [], p_all_rows = []\<rparr>"

definition merge_tables :: "(nat \<times> table) list \<Rightarrow> pdf_state" where
  "merge_tables all_tables = foldl pdf_table init_pdf_state all_tables"

text \<open>The tables of the pages, numbered from \<open>page_num\<close>, that have more than one row.\<close>

fun collect_tables :: "nat \<Rightarrow> table list list \<Rightarrow> (nat \<times> table) list" where
  "collect_tables page_num [] = []"
| "collect_tables page_num (tables # pages) =
     map (\<lambda>t. (page_num, t)) (filter (\<lambda>t. 1 < length t) tables)
     @ collect_tables (Suc page_num) pages"

subsection \<open>OCR fallback\<close>

text \<open>\<open>re.split(r'\s{2,}|\t', line)\<close>: a run of white space separates two cells when it has
  two characters or more, or is a single tab. \<open>cur\<close> is the cell being read, \<open>ws\<close> the run of
  white space read after it.\<close>

definition is_separator :: "pystr \<Rightarrow> bool" where
  "is_separator ws = (2 \<le> length ws \<or> ws = [CHR 0x09])"

fun split_cells :: "pystr \<Rightarrow> pystr \<Rightarrow> pystr \<Rightarrow> pystr list" where
  "split_cells cur ws [] = (if is_separator ws then [cur, []] else [cur @ ws])"
| "split_cells cur ws (c # cs) =
     (if isspace c then split_cells cur (ws @ [c]) cs
      else if is_separator ws then cur # split_cells [c] [] cs
      else split_cells (cur @ ws @ [c]) [] cs)"

definition line_cells :: "pystr \<Rightarrow> pystr list" where
  "line_cells line = filter (\<lambda>c. c \<noteq> []) (map strip (split_cells [] [] line))"

definition text_rows :: "pystr \<Rightarrow> table" where
  "text_rows txt =
     map (map Some)
       (filter (\<lambda>cells. cells \<noteq> [])
          (map line_cells
             (filter (\<lambda>line. strip line \<noteq> []) (split_char CHR 0x0A (strip txt)))))"

text \<open>The loop of \<open>extract_tables_with_ocr\<close> over the page images, numbered from
  \<open>page_num\<close>: the tables and the warnings added to the result.\<close>

fun ocr_loop :: "nat \<Rightarrow> pystr attempt list \<Rightarrow> (nat \<times> table) list \<times> pystr list" where
  "ocr_loop page_num [] = ([], [])"
| "ocr_loop page_num (img # images) =
     (case ocr_loop (Suc page_num) images of (tables, warnings) \<Rightarrow>
      (case img of
         Raised msg \<Rightarrow>
           (tables, (''OCR failed for page '' @ str_nat page_num @ '': '' @ msg) # warnings)
       | Returned txt \<Rightarrow>
           if text_rows txt \<noteq> [] then ((page_num, text_rows txt) # tables, warnings)
           else (tables, warnings)))"

text \<open>\<open>ParseError("ocr_failed", str(e))\<close>: an empty text gives the default message
  (\<open>message or ...\<close>).\<close>

definition extract_tables_with_ocr ::
  "world \<Rightarrow> pystr \<Rightarrow> parse_error + ((nat \<times> table) list \<times> pystr list)" where
  "extract_tables_with_ocr w file_path =
     (case image_to_string w file_path of
        Raised msg \<Rightarrow> Inl (OcrFailed, if msg = [] then None else Some msg)
      | Returned images \<Rightarrow> Inr (ocr_loop 1 images))"

text \<open>The second half of \<open>parse_pdf\<close>, from the test \<open>if not all_tables\<close> after the
  fallback on.\<close>

definition pdf_finish ::
  "pystr \<Rightarrow> nat \<Rightarrow> nat \<Rightarrow> bool \<Rightarrow> pystr list \<Rightarrow> confidence \<Rightarrow> (nat \<times> table) list
   \<Rightarrow> parse_error + parse_result" where
  "pdf_finish file_path pages tables_found ocr_used warnings conf all_tables =
     (if all_tables = [] then Inl (NoDataFound, Some ''No tables found in PDF'')
      else let st = merge_tables all_tables in
        if \<not> p_header_found st then raise_error NoHeaderFound
        else if p_all_rows st = [] then raise_error NoDataFound
        else (case calculate_summary_stats (p_all_rows st) (p_columns st) (p_column_mapping st) of
                (sm, dq) \<Rightarrow>
                  Inr \<lparr>filename = path_name file_path,
                       file_type = Pdf,
                       source_info = Pages pages tables_found ocr_used,
                       header_row = p_header_row st,
                       columns = p_columns st,
                       column_mapping = p_column_mapping st,
                       rows = p_all_rows st,
                       total_rows = length (p_all_rows st),
                       parse_warnings = warnings,
                       confidence = conf,
                       summary = sm,
                       data_quality = dq\<rparr>))"

definition parse_pdf :: "world \<Rightarrow> pystr \<Rightarrow> parse_error + parse_result" where
  "parse_pdf w file_path =
     (case extract_tables w file_path of
        Raised msg \<Rightarrow> Inl (open_error ''Could not open PDF: '' msg)
      | Returned pages \<Rightarrow>
          let all_tables = collect_tables 1 pages in
          if all_tables = []
          then (case extract_tables_with_ocr w file_path of
                  Inl e \<Rightarrow> Inl e
                | Inr (ocr_tables, ocr_warnings) \<Rightarrow>
                    pdf_finish file_path (length pages) 0 True
                      (''No tables found with pdfplumber, attempting OCR'' # ocr_warnings) Low
                      ocr_tables)
          else pdf_finish file_path (length pages) (length all_tables) False [] High all_tables)"

subsection \<open>Entry point\<close>

definition parse_rent_roll :: "world \<Rightarrow> pystr \<Rightarrow> parse_error + parse_result" where
  "parse_rent_roll w file_path =
     (if \<not> path_exists w file_path
      then Inl (FileNotFound, Some (''File not found: '' @ file_path))
      else (case detect_file_type file_path of
              Inl e \<Rightarrow> Inl e
            | Inr Excel \<Rightarrow> parse_excel w file_path
            | Inr Pdf \<Rightarrow> parse_pdf w file_path))"

section \<open>The scenario of the specification\<close>

text \<open>The header \<open>["Lejem\<aa>l", "Areal", "Leje"]\<close> and the three data rows of the scenario,
  with any source label and any row numbers.\<close>

definition scenario_header :: table_row where
  "scenario_header = [Some (''Lejem'' @ [aring] @ ''l''), Some ''Areal'', Some ''Leje'']"

definition scenario_rows :: "pystr \<Rightarrow> nat \<Rightarrow> nat \<Rightarrow> nat \<Rightarrow> row list" where
  "scenario_rows src n1 n2 n3 =
     [\<lparr>raw = [''A1'', ''50'', ''10.000''], source = src, row_num = n1, rent_type = None\<rparr>,
      \<lparr>raw = [''A2'', ''0'', ''0''], source = src, row_num = n2, rent_type = None\<rparr>,
      \<lparr>raw = [''A3'', '''', ''5.000''], source = src, row_num = n3, rent_type = None\<rparr>]"

text \<open>The aggregation as both pipelines call it: with the header cells as columns and with
  the mapping \<open>map_columns\<close> gives for the header.\<close>

definition scenario_result :: "pystr \<Rightarrow> nat \<Rightarrow> nat \<Rightarrow> nat \<Rightarrow> summary \<times> data_quality" where
  "scenario_result src n1 n2 n3 =
     calculate_summary_stats (scenario_rows src n1 n2 n3) (map cell_str scenario_header)
       (map_columns scenario_header)"

text \<open>The words of the specification for the average: a row qualifies when its area and its
  rent are both strictly positive; its own ratio is its rent by its area; the average is the
  mean of the ratios of the qualifying rows, 0 when there is none. The mean is taken in
  floating-point arithmetic: the ratios are added from the left, starting from 0, and the
  sum is divided by their number.\<close>

definition qualifying :: "nat option \<Rightarrow> nat option \<Rightarrow> row \<Rightarrow> bool" where
  "qualifying sqm_idx rent_idx r =
     (positive (value_at sqm_idx (raw r)) \<and> positive (value_at rent_idx (raw r)))"

definition own_ratio :: "nat option \<Rightarrow> nat option \<Rightarrow> row \<Rightarrow> pyfloat" where
  "own_ratio sqm_idx rent_idx r =
     fdiv (the (value_at rent_idx (raw r))) (the (value_at sqm_idx (raw r)))"

definition float_sum :: "pyfloat list \<Rightarrow> pyfloat" where
  "float_sum xs = foldl fadd (Fin 0) xs"

definition mean :: "pyfloat list \<Rightarrow> pyfloat" where
  "mean xs = (if xs = [] then Fin 0 else fdiv (float_sum xs) (to_double (of_nat (length xs))))"

section \<open>The rule of the column mapper in the words of the specification\<close>

text \<open>The first entry of the synonym table, in its declaration order, whose synonym is a part
  of the lower-cased header or has it as a part; and the rule: the exact lookup first, that
  entry otherwise.\<close>

definition first_synonym :: "pystr \<Rightarrow> (pystr \<times> field_tag) option" where
  "first_synonym header_lower =
     find (\<lambda>(synonym, tag). sublist synonym header_lower \<or> sublist header_lower synonym)
       COLUMN_MAPPING"

definition column_rule :: "pystr \<Rightarrow> field_tag option" where
  "column_rule header_lower =
     (case map_of COLUMN_MAPPING header_lower of
        Some tag \<Rightarrow> Some tag
      | None \<Rightarrow> map_option snd (first_synonym header_lower))"

text \<open>The five headers of the claim.\<close>

definition claimed_headers :: table_row where
  "claimed_headers = [Some ''Lejnr.'', Some ''Areal'', Some ''Leje'', Some ''Etage'', Some ''Bem.'']"

section \<open>Strings of digits\<close>

definition all_digits :: "pystr \<Rightarrow> bool" where
  "all_digits s = list_all isdigit s"

section \<open>Tables for the header locator\<close>

text \<open>A table whose first row scores 2 and whose second row scores 4, and a table without a
  header.\<close>

definition two_header_table :: table where
  "two_header_table =
     [[Some ''Areal'', Some ''Leje''],
      [Some ''Areal'', Some ''Leje'', Some ''Etage''],
      [Some ''50'', Some ''1000'', Some ''1'']]"

definition no_header_table :: table where
  "no_header_table = [[Some ''A1'', Some ''50''], [Some ''A2'', Some ''60'']]"

section \<open>A world for the entry point\<close>

text \<open>A world in which every path exists, or none does, and every reader raises.\<close>

definition unreadable_world :: "bool \<Rightarrow> world" where
  "unreadable_world present =
     \<lparr>path_exists = (\<lambda>_. present),
      load_workbook = (\<lambda>_. Raised ''unreadable''),
      extract_tables = (\<lambda>_. Raised ''unreadable''),
      image_to_string = (\<lambda>_. Raised ''unreadable'')\<rparr>"

section \<open>A table with a totals row in the middle\<close>

definition rows_before_total :: table where
  "rows_before_total = [[Some ''A1'', Some ''50'', Some ''1000'']]"

definition total_row :: table_row where
  "total_row = [Some ''Total'', Some '''', Some '''']"

definition rows_after_total :: table where
  "rows_after_total = [[Some ''A2'', Some ''60'', Some ''2000'']]"

definition total_header :: table_row where
  "total_header = [Some ''Lejnr'', Some ''Areal'', Some ''Leje'']"

definition total_table :: table where
  "total_table = total_header # rows_before_total @ total_row # rows_after_total"

text \<open>A workbook whose only sheet is that table; a PDF with that table on each of its two
  pages; a scanned PDF, without a table, on whose only page the same four lines are
  recognised.\<close>

definition total_sheets :: "(pystr \<times> table attempt) list" where
  "total_sheets = [(''Ark1'', Returned total_table)]"

definition total_pages :: "table list list" where
  "total_pages = [[total_table], [total_table]]"

definition total_scan :: "pystr attempt list" where
  "total_scan =
     [Returned (''Lejnr  Areal  Leje'' @ [CHR 0x0A] @ ''A1  50  1000'' @ [CHR 0x0A]
                @ ''Total'' @ [CHR 0x0A] @ ''A2  60  2000'' @ [CHR 0x0A])]"

definition total_sheet_world :: world where
  "total_sheet_world =
     \<lparr>path_exists = (\<lambda>_. True),
      load_workbook = (\<lambda>_. Returned total_sheets),
      extract_tables = (\<lambda>_. Raised ''not a PDF''),
      image_to_string = (\<lambda>_. Raised ''no images'')\<rparr>"

definition total_pdf_world :: world where
  "total_pdf_world =
     \<lparr>path_exists = (\<lambda>_. True),
      load_workbook = (\<lambda>_. Raised ''not a workbook''),
      extract_tables = (\<lambda>_. Returned total_pages),
      image_to_string = (\<lambda>_. Raised ''no images'')\<rparr>"

definition total_scan_world :: world where
  "total_scan_world =
     \<lparr>path_exists = (\<lambda>_. True),
      load_workbook = (\<lambda>_. Raised ''not a workbook''),
      extract_tables = (\<lambda>_. Returned [[]]),
      image_to_string = (\<lambda>_. Returned total_scan)\<rparr>"

section \<open>Row numbers within a source label\<close>

text \<open>The row numbers of a list of rows are strictly increasing; the rows of a list that carry
  a given source label, in their order.\<close>

definition increasing :: "row list \<Rightarrow> bool" where
  "increasing rs = sorted_wrt (<) (map row_num rs)"

definition with_source :: "pystr \<Rightarrow> row list \<Rightarrow> row list" where
  "with_source label rs = filter (\<lambda>r. source r = label) rs"

text \<open>A PDF with one page that holds two tables, and a workbook with one sheet.\<close>

definition first_table :: table where
  "first_table =
     [[Some ''Lejnr'', Some ''Areal'', Some ''Leje''], [Some ''A1'', Some ''50'', Some ''1000'']]"

definition second_table :: table where
  "second_table =
     [[Some ''B1'', Some ''60'', Some ''2000''], [Some ''B2'', Some ''70'', Some ''3000'']]"

definition one_page :: "table list list" where
  "one_page = [[first_table, second_table]]"

definition one_page_world :: world where
  "one_page_world =
     \<lparr>path_exists = (\<lambda>_. True),
      load_workbook = (\<lambda>_. Raised ''not a workbook''),
      extract_tables = (\<lambda>_. Returned one_page),
      image_to_string = (\<lambda>_. Raised ''no images'')\<rparr>"

definition one_sheet :: "(pystr \<times> table attempt) list" where
  "one_sheet = [(''Ark1'', Returned (first_table @ second_table))]"

definition one_sheet_world :: world where
  "one_sheet_world =
     \<lparr>path_exists = (\<lambda>_. True),
      load_workbook = (\<lambda>_. Returned one_sheet),
      extract_tables = (\<lambda>_. Raised ''not a PDF''),
      image_to_string = (\<lambda>_. Raised ''no images'')\<rparr>"

definition page_tables :: "(nat \<times> table) list" where
  "page_tables = [(1, first_table), (1, second_table)]"

section \<open>Repeated headers in the PDF pipeline\<close>

text \<open>A table whose header has a cell that holds one space, and in which the header row is
  repeated among the data rows.\<close>

definition blank_cell_header :: table_row where
  "blank_cell_header = [Some ''Lejnr'', Some '' '', Some ''Areal'', Some ''Leje'']"

definition blank_cell_table :: table where
  "blank_cell_table =
     [blank_cell_header,
      [Some ''A1'', Some '''', Some ''50'', Some ''1000''],
      blank_cell_header,
      [Some ''A2'', Some '''', Some ''60'', Some ''2000'']]"

definition blank_cell_tables :: "(nat \<times> table) list" where
  "blank_cell_tables = [(1, blank_cell_table)]"

text \<open>The PDF whose only page yields that table.\<close>

definition blank_cell_page :: "table list list" where
  "blank_cell_page = [[blank_cell_table]]"

definition blank_cell_world :: world where
  "blank_cell_world =
     \<lparr>path_exists = (\<lambda>_. True),
      load_workbook = (\<lambda>_. Raised ''not a workbook''),
      extract_tables = (\<lambda>_. Returned blank_cell_page),
      image_to_string = (\<lambda>_. Raised ''no images'')\<rparr>"

text \<open>The invariant of the loop over the tables: no row is kept before a header is accepted, and
  no kept row has a signature among the accepted header signatures.\<close>

definition inv_no_header_rows :: "pdf_state \<Rightarrow> bool" where
  "inv_no_header_rows st =
     ((\<not> p_header_found st \<longrightarrow> p_all_rows st = [])
      \<and> list_all (\<lambda>x. row_sig (raw x) \<notin> set (p_seen_headers st)) (p_all_rows st))"

section \<open>Values the normalizer is handed\<close>

text \<open>The values for which the normalizer returns and its result is equal to itself: every
  value but the float \<open>NaN\<close> and the integers that \<open>float\<close> cannot convert. \<open>huge_int\<close> is
  the least positive such integer.\<close>

definition accepted :: "pyvalue \<Rightarrow> bool" where
  "accepted x =
     (case x of
        PFloat v \<Rightarrow> v \<noteq> NaN
      | PInt i \<Rightarrow> \<not> isl (float_of_int i)
      | _ \<Rightarrow> True)"

definition huge_int :: int where
  "huge_int = 2 ^ 1024"

section \<open>The rows kept of a table\<close>

text \<open>
  The rows the specification keeps of the data rows of one sheet, below a header at index
  \<open>h\<close>: of the rows before the first sentinel, those with two or more cells that are not
  blank, each numbered by its position in the sheet, counted from 1.
\<close>

definition kept_of_sheet :: "pystr \<Rightarrow> nat \<Rightarrow> table \<Rightarrow> row list" where
  "kept_of_sheet name h data_rows =
     map (\<lambda>(i, r). \<lparr>raw = map cell_str r, source = name, row_num = h + i + 2,
                     rent_type = get_rent_type_from_sheet name\<rparr>)
       (filter (\<lambda>(i, r). 2 \<le> non_empty_count (map cell_str r))
          (enumerate 0 (takeWhile (\<lambda>r. \<not> is_end_row r) data_rows)))"

text \<open>The rows one sheet adds to the result: none when it cannot be read, has fewer than 3
  rows or has no header.\<close>

definition sheet_segment :: "pystr \<times> table attempt \<Rightarrow> row list" where
  "sheet_segment sh =
     (case sh of (name, reading) \<Rightarrow>
      (case reading of
         Raised msg \<Rightarrow> []
       | Returned sheet_rows \<Rightarrow>
           if length sheet_rows < 3 then []
           else (case find_header_row sheet_rows of
                   Inl e \<Rightarrow> []
                 | Inr (h, header) \<Rightarrow> kept_of_sheet name h (drop (h + 1) sheet_rows))))"

text \<open>
  The rows the specification keeps of the data rows of one table of a PDF, \<open>seen\<close> being the
  signatures of the accepted headers: of all the data rows, those that are no sentinel, have
  two or more cells that are not blank and do not repeat a header, each numbered by its
  position among the data rows, counted from 1.
\<close>

definition kept_of_table :: "nat \<Rightarrow> pystr list list \<Rightarrow> table \<Rightarrow> row list" where
  "kept_of_table page_num seen data_rows =
     map (\<lambda>(i, r). \<lparr>raw = map cell_str r, source = page_source page_num, row_num = i + 1,
                     rent_type = None\<rparr>)
       (filter (\<lambda>(i, r). \<not> is_end_row r \<and> 2 \<le> non_empty_count (map cell_str r)
                          \<and> row_sig (map cell_str r) \<notin> set seen)
          (enumerate 0 data_rows))"

text \<open>
  The segments of the merged tables, one for each table. A table before the first one with
  a header adds nothing; the first table with a header adds the rows kept of what follows its
  header; a later table adds the rows kept of all its rows, or of the rows after the first
  when that one repeats the header. A table handed to the merge is never empty.
\<close>

fun later_segments :: "pystr list list \<Rightarrow> (nat \<times> table) list \<Rightarrow> row list list" where
  "later_segments seen [] = []"
| "later_segments seen ((page_num, t) # tables) =
     kept_of_table page_num seen
       (case t of
          [] \<Rightarrow> []
        | first_row # others \<Rightarrow> if header_sig first_row \<in> set seen then others else t)
     # later_segments seen tables"

fun merged_segments :: "(nat \<times> table) list \<Rightarrow> row list list" where
  "merged_segments [] = []"
| "merged_segments ((page_num, t) # tables) =
     (case find_header_row t of
        Inl e \<Rightarrow> [] # merged_segments tables
      | Inr (h, header) \<Rightarrow>
          kept_of_table page_num [header_sig header] (drop (h + 1) t)
          # later_segments [header_sig header] tables)"

text \<open>A segment of a table: its rows carry the label of the page of the table, and their
  row numbers are strictly increasing.\<close>

definition segment_of :: "nat \<times> table \<Rightarrow> row list \<Rightarrow> bool" where
  "segment_of table_info seg =
     (increasing seg \<and> list_all (\<lambda>x. source x = page_source (fst table_info)) seg)"

section \<open>The aggregator classifies every row once\<close>

lemma count_sqm_total:
  "acc_units_with_sqm (count_sqm n v a) + length (acc_rows_missing_sqm (count_sqm n v a))
   = Suc (acc_units_with_sqm a + length (acc_rows_missing_sqm a))"
  by (simp add: count_sqm_def)

lemma count_rent_total:
  "acc_units_with_rent (count_rent n v v' a) + length (acc_rows_missing_rent (count_rent n v v' a))
   = Suc (acc_units_with_rent a + length (acc_rows_missing_rent a))"
  by (simp add: count_rent_def Let_def)

lemma others_keep_sqm:
  "acc_units_with_sqm (count_rent n v v' a) = acc_units_with_sqm a"
  "acc_rows_missing_sqm (count_rent n v v' a) = acc_rows_missing_sqm a"
  "acc_units_with_sqm (count_category c v v' a) = acc_units_with_sqm a"
  "acc_rows_missing_sqm (count_category c v v' a) = acc_rows_missing_sqm a"
  "acc_units_with_sqm (count_vacancy i r c a) = acc_units_with_sqm a"
  "acc_rows_missing_sqm (count_vacancy i r c a) = acc_rows_missing_sqm a"
  "acc_units_with_sqm (count_rent_per_sqm v v' a) = acc_units_with_sqm a"
  "acc_rows_missing_sqm (count_rent_per_sqm v v' a) = acc_rows_missing_sqm a"
  by (simp_all add: count_rent_def count_category_def count_vacancy_def count_rent_per_sqm_def
      Let_def split: option.splits)

lemma others_keep_rent:
  "acc_units_with_rent (count_sqm n v a) = acc_units_with_rent a"
  "acc_rows_missing_rent (count_sqm n v a) = acc_rows_missing_rent a"
  "acc_units_with_rent (count_category c v v' a) = acc_units_with_rent a"
  "acc_rows_missing_rent (count_category c v v' a) = acc_rows_missing_rent a"
  "acc_units_with_rent (count_vacancy i r c a) = acc_units_with_rent a"
  "acc_rows_missing_rent (count_vacancy i r c a) = acc_rows_missing_rent a"
  "acc_units_with_rent (count_rent_per_sqm v v' a) = acc_units_with_rent a"
  "acc_rows_missing_rent (count_rent_per_sqm v v' a) = acc_rows_missing_rent a"
  by (simp_all add: count_sqm_def count_category_def count_vacancy_def count_rent_per_sqm_def
      Let_def split: option.splits)

lemma summary_step_sqm:
  "acc_units_with_sqm (summary_step i j k l a r)
     + length (acc_rows_missing_sqm (summary_step i j k l a r))
   = Suc (acc_units_with_sqm a + length (acc_rows_missing_sqm a))"
  by (simp add: summary_step_def Let_def others_keep_sqm count_sqm_total)

lemma summary_step_rent:
  "acc_units_with_rent (summary_step i j k l a r)
     + length (acc_rows_missing_rent (summary_step i j k l a r))
   = Suc (acc_units_with_rent a + length (acc_rows_missing_rent a))"
  by (simp add: summary_step_def Let_def others_keep_rent count_rent_total)

lemma foldl_step_sqm:
  "acc_units_with_sqm (foldl (summary_step i j k l) a rs)
     + length (acc_rows_missing_sqm (foldl (summary_step i j k l) a rs))
   = acc_units_with_sqm a + length (acc_rows_missing_sqm a) + length rs"
  by (induction rs arbitrary: a) (simp_all add: summary_step_sqm)

lemma foldl_step_rent:
  "acc_units_with_rent (foldl (summary_step i j k l) a rs)
     + length (acc_rows_missing_rent (foldl (summary_step i j k l) a rs))
   = acc_units_with_rent a + length (acc_rows_missing_rent a) + length rs"
  by (induction rs arbitrary: a) (simp_all add: summary_step_rent)

text \<open>
  C10. For every list of rows, header and column mapping handed to
  \<open>calculate_summary_stats\<close>, each row is counted either as a unit with an area or in
  \<open>rows_missing_sqm\<close>, and either as a unit with a rent or in \<open>rows_missing_rent\<close>:
  \<open>units_with_sqm\<close> plus the length of \<open>rows_missing_sqm\<close> is the number of rows, and so is
  \<open>units_with_rent\<close> plus the length of \<open>rows_missing_rent\<close>.
\<close>

theorem every_row_classified_once:
  "units_with_sqm (fst (calculate_summary_stats rs cols cm))
     + length (rows_missing_sqm (snd (calculate_summary_stats rs cols cm))) = length rs
   \<and> units_with_rent (fst (calculate_summary_stats rs cols cm))
     + length (rows_missing_rent (snd (calculate_summary_stats rs cols cm))) = length rs"
  using foldl_step_sqm [of _ _ _ _ init_acc rs] foldl_step_rent [of _ _ _ _ init_acc rs]
  by (simp add: calculate_summary_stats_def summary_loop_def Let_def init_acc_def)

section \<open>The normalizer applied to its own result\<close>

lemma to_double_not_NaN: "to_double x \<noteq> NaN"
  by (simp add: to_double_def Let_def)

lemma convert_danish_str_not_NaN: "convert_danish_str s \<noteq> Some NaN"
  by (auto simp: convert_danish_str_def float_of_str_def Let_def to_double_not_NaN)

lemma float_of_int_cases:
  "float_of_int i = Inl OverflowError \<or> (\<exists>x. float_of_int i = Inr (Fin x))"
  by (simp add: float_of_int_def split: pyfloat.splits)

lemma accepted_result:
  assumes "accepted x"
  shows "\<exists>r. convert_danish_number x = Inr r \<and> r \<noteq> Some NaN"
proof (cases x)
  case PNone
  then show ?thesis by (simp add: convert_danish_number_def)
next
  case (PInt i)
  with assms float_of_int_cases [of i] show ?thesis
    by (auto simp: convert_danish_number_def accepted_def)
next
  case (PFloat v)
  with assms show ?thesis by (simp add: convert_danish_number_def accepted_def)
next
  case (PStr s)
  then show ?thesis
    by (simp add: convert_danish_number_def convert_danish_str_not_NaN)
qed

lemma again: "convert_danish_number (as_value r) = Inr r"
  by (cases r) (simp_all add: as_value_def convert_danish_number_def)

lemma result_eq_refl: "r \<noteq> Some NaN \<Longrightarrow> result_eq r r"
  by (cases r) (simp_all add: result_eq_def float_eq_def)

lemma overflowing_int: "float_of_int huge_int = Inl OverflowError"
  by code_simp

text \<open>
  C9, as the specification states it, fails for two inputs. For the float \<open>NaN\<close> the
  normalizer returns \<open>NaN\<close> both times, and \<open>NaN == NaN\<close> is false. For an integer that
  \<open>float\<close> cannot convert, \<open>float(value)\<close> raises \<open>OverflowError\<close> outside the \<open>try\<close>, so
  the normalizer returns nothing.
\<close>

theorem nan_and_huge_int_break_idempotence:
  "convert_danish_number (PFloat NaN) = Inr (Some NaN)
   \<and> convert_danish_number (as_value (Some NaN)) = Inr (Some NaN)
   \<and> \<not> result_eq (Some NaN) (Some NaN)
   \<and> convert_danish_number (PInt huge_int) = Inl OverflowError"
  by (simp add: convert_danish_number_def as_value_def result_eq_def float_eq_def overflowing_int)

text \<open>
  C9, amended. For every input that is \<open>None\<close>, a string, a float other than \<open>NaN\<close>, or an
  integer that \<open>float\<close> can convert, the numeric normalizer returns a result \<open>r\<close>, a float
  or \<open>None\<close>; applied to \<open>r\<close> it returns \<open>r\<close> again, and \<open>r == r\<close> holds in Python.
\<close>

theorem normalizer_idempotent:
  "accepted x \<longrightarrow>
     (\<exists>r. convert_danish_number x = Inr r
          \<and> convert_danish_number (as_value r) = Inr r
          \<and> result_eq r r)"
  using accepted_result [of x] again result_eq_refl by blast

lemma claimed_kr: "convert_danish_str ''kr 72.000'' = Some (Fin 72000)"
  by code_simp

lemma small_int: "float_of_int 72000 = Inr (Fin 72000)"
  by code_simp

theorem normalizer_idempotent_witness:
  "accepted (PStr ''kr 72.000'')
   \<and> convert_danish_number (PStr ''kr 72.000'') = Inr (Some (Fin 72000))
   \<and> convert_danish_number (as_value (Some (Fin 72000))) = Inr (Some (Fin 72000))
   \<and> result_eq (Some (Fin 72000)) (Some (Fin 72000))
   \<and> accepted (PInt 72000) \<and> accepted PNone
   \<and> convert_danish_number (as_value None) = Inr None \<and> result_eq None None"
proof -
  have a: "accepted (PStr ''kr 72.000'')" "accepted (PInt 72000)" "accepted PNone"
    by (simp_all add: accepted_def small_int)
  have c: "convert_danish_number (PStr ''kr 72.000'') = Inr (Some (Fin 72000))"
    "convert_danish_number PNone = Inr None"
    by (simp_all add: convert_danish_number_def claimed_kr)
  from normalizer_idempotent [of "PStr ''kr 72.000''"] a(1) c(1)
  have 1: "convert_danish_number (as_value (Some (Fin 72000))) = Inr (Some (Fin 72000))
           \<and> result_eq (Some (Fin 72000)) (Some (Fin 72000))"
    by auto
  from normalizer_idempotent [of PNone] a(3) c(2)
  have 2: "convert_danish_number (as_value None) = Inr None \<and> result_eq None None"
    by auto
  from a c 1 2 show ?thesis by simp
qed

section \<open>What the aggregator computes\<close>

lemma count_sqm_fields:
  "acc_total_sqm (count_sqm n v a) =
     (if positive v then fadd (acc_total_sqm a) (the v) else acc_total_sqm a)"
  "acc_rows_missing_sqm (count_sqm n v a) = acc_rows_missing_sqm a @ (if positive v then [] else [n])"
  "acc_total_rent (count_sqm n v a) = acc_total_rent a"
  "acc_rent_per_sqm_sum (count_sqm n v a) = acc_rent_per_sqm_sum a"
  "acc_rent_per_sqm_count (count_sqm n v a) = acc_rent_per_sqm_count a"
  by (simp_all add: count_sqm_def)

lemma count_rent_fields:
  "acc_total_rent (count_rent n v v' a) =
     (if positive v' then fadd (acc_total_rent a) (the v') else acc_total_rent a)"
  "acc_rows_missing_rent (count_rent n v v' a) = acc_rows_missing_rent a @ (if positive v' then [] else [n])"
  "acc_total_sqm (count_rent n v v' a) = acc_total_sqm a"
  "acc_rent_per_sqm_sum (count_rent n v v' a) = acc_rent_per_sqm_sum a"
  "acc_rent_per_sqm_count (count_rent n v v' a) = acc_rent_per_sqm_count a"
  by (simp_all add: count_rent_def Let_def)

lemma count_category_fields:
  "acc_total_sqm (count_category c v v' a) = acc_total_sqm a"
  "acc_total_rent (count_category c v v' a) = acc_total_rent a"
  "acc_rent_per_sqm_sum (count_category c v v' a) = acc_rent_per_sqm_sum a"
  "acc_rent_per_sqm_count (count_category c v v' a) = acc_rent_per_sqm_count a"
  by (simp_all add: count_category_def Let_def)

lemma count_vacancy_fields:
  "acc_total_sqm (count_vacancy i r c a) = acc_total_sqm a"
  "acc_total_rent (count_vacancy i r c a) = acc_total_rent a"
  "acc_rent_per_sqm_sum (count_vacancy i r c a) = acc_rent_per_sqm_sum a"
  "acc_rent_per_sqm_count (count_vacancy i r c a) = acc_rent_per_sqm_count a"
  by (simp_all add: count_vacancy_def Let_def split: option.splits)

lemma count_rent_per_sqm_fields:
  "acc_total_sqm (count_rent_per_sqm v v' a) = acc_total_sqm a"
  "acc_total_rent (count_rent_per_sqm v v' a) = acc_total_rent a"
  "acc_rent_per_sqm_sum (count_rent_per_sqm v v' a) =
     (if positive v \<and> positive v' then fadd (acc_rent_per_sqm_sum a) (fdiv (the v') (the v))
      else acc_rent_per_sqm_sum a)"
  "acc_rent_per_sqm_count (count_rent_per_sqm v v' a) =
     acc_rent_per_sqm_count a + (if positive v \<and> positive v' then 1 else 0)"
  by (simp_all add: count_rent_per_sqm_def)

lemmas acc_fields = count_sqm_fields count_rent_fields count_category_fields
  count_vacancy_fields count_rent_per_sqm_fields

lemma step_total_sqm:
  "acc_total_sqm (summary_step i j k l a r) =
     (if positive (value_at i (raw r)) then fadd (acc_total_sqm a) (the (value_at i (raw r)))
      else acc_total_sqm a)"
  by (simp add: summary_step_def Let_def acc_fields)

lemma step_total_rent:
  "acc_total_rent (summary_step i j k l a r) =
     (if positive (value_at j (raw r)) then fadd (acc_total_rent a) (the (value_at j (raw r)))
      else acc_total_rent a)"
  by (simp add: summary_step_def Let_def acc_fields)

lemma step_missing_sqm:
  "acc_rows_missing_sqm (summary_step i j k l a r) =
     acc_rows_missing_sqm a @ (if positive (value_at i (raw r)) then [] else [row_num r])"
  by (simp add: summary_step_def Let_def acc_fields others_keep_sqm)

lemma step_missing_rent:
  "acc_rows_missing_rent (summary_step i j k l a r) =
     acc_rows_missing_rent a @ (if positive (value_at j (raw r)) then [] else [row_num r])"
  by (simp add: summary_step_def Let_def acc_fields others_keep_rent)

lemma step_ratio_sum:
  "acc_rent_per_sqm_sum (summary_step i j k l a r) =
     (if qualifying i j r then fadd (acc_rent_per_sqm_sum a) (own_ratio i j r)
      else acc_rent_per_sqm_sum a)"
  by (simp add: summary_step_def Let_def acc_fields qualifying_def own_ratio_def)

lemma step_ratio_count:
  "acc_rent_per_sqm_count (summary_step i j k l a r) =
     acc_rent_per_sqm_count a + (if qualifying i j r then 1 else 0)"
  by (simp add: summary_step_def Let_def acc_fields qualifying_def)

lemma loop_ratio_sum:
  "acc_rent_per_sqm_sum (foldl (summary_step i j k l) a rs) =
     foldl fadd (acc_rent_per_sqm_sum a) (map (own_ratio i j) (filter (qualifying i j) rs))"
  by (induction rs arbitrary: a) (simp_all add: step_ratio_sum)

lemma loop_ratio_count:
  "acc_rent_per_sqm_count (foldl (summary_step i j k l) a rs) =
     acc_rent_per_sqm_count a + length (filter (qualifying i j) rs)"
  by (induction rs arbitrary: a) (simp_all add: step_ratio_count)

lemma loop_total_sqm:
  "acc_total_sqm (foldl (summary_step i j k l) a rs) =
     foldl fadd (acc_total_sqm a)
       (map (\<lambda>r. the (value_at i (raw r))) (filter (\<lambda>r. positive (value_at i (raw r))) rs))"
  by (induction rs arbitrary: a) (simp_all add: step_total_sqm)

lemma loop_total_rent:
  "acc_total_rent (foldl (summary_step i j k l) a rs) =
     foldl fadd (acc_total_rent a)
       (map (\<lambda>r. the (value_at j (raw r))) (filter (\<lambda>r. positive (value_at j (raw r))) rs))"
  by (induction rs arbitrary: a) (simp_all add: step_total_rent)

lemma loop_missing_sqm:
  "acc_rows_missing_sqm (foldl (summary_step i j k l) a rs) =
     acc_rows_missing_sqm a @ map row_num (filter (\<lambda>r. \<not> positive (value_at i (raw r))) rs)"
  by (induction rs arbitrary: a) (simp_all add: step_missing_sqm)

lemma loop_missing_rent:
  "acc_rows_missing_rent (foldl (summary_step i j k l) a rs) =
     acc_rows_missing_rent a @ map row_num (filter (\<lambda>r. \<not> positive (value_at j (raw r))) rs)"
  by (induction rs arbitrary: a) (simp_all add: step_missing_rent)

lemma avg_is_mean_of_ratios:
  "avg_rent_per_sqm (fst (calculate_summary_stats rs cols cm)) =
     round2 (mean (map (own_ratio (standard_to_idx cols cm Sqm) (standard_to_idx cols cm Annual_rent))
       (filter (qualifying (standard_to_idx cols cm Sqm) (standard_to_idx cols cm Annual_rent)) rs)))"
  by (simp add: calculate_summary_stats_def summary_loop_def Let_def loop_ratio_sum loop_ratio_count
      init_acc_def mean_def float_sum_def)

lemma stats_total_sqm:
  "total_sqm (fst (calculate_summary_stats rs cols cm)) =
     round2 (float_sum (map (\<lambda>r. the (value_at (standard_to_idx cols cm Sqm) (raw r)))
       (filter (\<lambda>r. positive (value_at (standard_to_idx cols cm Sqm) (raw r))) rs)))"
  by (simp add: calculate_summary_stats_def summary_loop_def Let_def loop_total_sqm init_acc_def
      float_sum_def)

lemma stats_total_rent:
  "total_annual_rent (fst (calculate_summary_stats rs cols cm)) =
     round2 (float_sum (map (\<lambda>r. the (value_at (standard_to_idx cols cm Annual_rent) (raw r)))
       (filter (\<lambda>r. positive (value_at (standard_to_idx cols cm Annual_rent) (raw r))) rs)))"
  by (simp add: calculate_summary_stats_def summary_loop_def Let_def loop_total_rent init_acc_def
      float_sum_def)

lemma stats_missing_sqm:
  "rows_missing_sqm (snd (calculate_summary_stats rs cols cm)) =
     map row_num (filter (\<lambda>r. \<not> positive (value_at (standard_to_idx cols cm Sqm) (raw r))) rs)"
  by (simp add: calculate_summary_stats_def summary_loop_def Let_def loop_missing_sqm init_acc_def)

lemma stats_missing_rent:
  "rows_missing_rent (snd (calculate_summary_stats rs cols cm)) =
     map row_num
       (filter (\<lambda>r. \<not> positive (value_at (standard_to_idx cols cm Annual_rent) (raw r))) rs)"
  by (simp add: calculate_summary_stats_def summary_loop_def Let_def loop_missing_rent init_acc_def)

lemma scenario_mapping:
  "map_columns scenario_header =
     [(''Lejem'' @ [aring] @ ''l'', Unit_id), (''Areal'', Sqm), (''Leje'', Annual_rent)]"
  by code_simp

lemma scenario_idx:
  "standard_to_idx (map cell_str scenario_header) (map_columns scenario_header) Sqm = Some 1"
  "standard_to_idx (map cell_str scenario_header) (map_columns scenario_header) Annual_rent = Some 2"
  unfolding scenario_mapping
  by (simp_all add: standard_to_idx_def scenario_header_def cell_str_def aring_def)

lemma scenario_numbers:
  "convert_danish_str ''50'' = Some (Fin 50)"
  "convert_danish_str ''0'' = Some (Fin 0)"
  "convert_danish_str ''10.000'' = Some (Fin 10000)"
  "convert_danish_str ''5.000'' = Some (Fin 5000)"
  "convert_danish_str [] = None"
  by code_simp+

lemma scenario_values:
  "value_at (Some (Suc 0)) [''A1'', ''50'', ''10.000''] = Some (Fin 50)"
  "value_at (Some 2) [''A1'', ''50'', ''10.000''] = Some (Fin 10000)"
  "value_at (Some (Suc 0)) [''A2'', ''0'', ''0''] = Some (Fin 0)"
  "value_at (Some 2) [''A2'', ''0'', ''0''] = Some (Fin 0)"
  "value_at (Some (Suc 0)) [''A3'', [], ''5.000''] = None"
  "value_at (Some 2) [''A3'', [], ''5.000''] = Some (Fin 5000)"
  by (simp_all add: value_at_def cell_at_def scenario_numbers)

lemma scenario_arithmetic:
  "fadd (Fin 0) (Fin 50) = Fin 50"
  "fadd (Fin 0) (Fin 10000) = Fin 10000"
  "fadd (Fin 10000) (Fin 5000) = Fin 15000"
  "fdiv (Fin 10000) (Fin 50) = Fin 200"
  "fadd (Fin 0) (Fin 200) = Fin 200"
  "to_double 1 = Fin 1"
  "fdiv (Fin 200) (Fin 1) = Fin 200"
  "fdiv (Fin 15000) (Fin 50) = Fin 300"
  "round2 (Fin 50) = Fin 50" "round2 (Fin 15000) = Fin 15000" "round2 (Fin 200) = Fin 200"
  by code_simp+

text \<open>
  C1. For the header \<open>["Lejem\<aa>l", "Areal", "Leje"]\<close> and the data rows
  \<open>("A1", "50", "10.000")\<close>, \<open>("A2", "0", "0")\<close>, \<open>("A3", "", "5.000")\<close>, whatever their
  source label and row numbers \<open>n1\<close>, \<open>n2\<close>, \<open>n3\<close>, the aggregation gives
  \<open>total_sqm = 50\<close>, \<open>total_annual_rent = 15000\<close>, \<open>rows_missing_sqm = [n2, n3]\<close>,
  \<open>rows_missing_rent = [n2]\<close> and \<open>avg_rent_per_sqm = 200\<close>, which is not the ratio of the
  totals (300); and for all rows, header and mapping the average is the mean, in
  floating-point arithmetic and rounded to two decimals, of the own ratios rent / area of
  the rows whose area and rent are both strictly positive.
\<close>

theorem scenario_aggregation:
  "total_sqm (fst (scenario_result src n1 n2 n3)) = Fin 50
   \<and> total_annual_rent (fst (scenario_result src n1 n2 n3)) = Fin 15000
   \<and> rows_missing_sqm (snd (scenario_result src n1 n2 n3)) = [n2, n3]
   \<and> rows_missing_rent (snd (scenario_result src n1 n2 n3)) = [n2]
   \<and> avg_rent_per_sqm (fst (scenario_result src n1 n2 n3)) = Fin 200
   \<and> fdiv (total_annual_rent (fst (scenario_result src n1 n2 n3)))
           (total_sqm (fst (scenario_result src n1 n2 n3))) = Fin 300
   \<and> (\<forall>rs cols cm.
        avg_rent_per_sqm (fst (calculate_summary_stats rs cols cm)) =
          round2 (mean (map (own_ratio (standard_to_idx cols cm Sqm)
                                       (standard_to_idx cols cm Annual_rent))
                    (filter (qualifying (standard_to_idx cols cm Sqm)
                                        (standard_to_idx cols cm Annual_rent)) rs))))"
proof -
  have concrete:
    "total_sqm (fst (scenario_result src n1 n2 n3)) = Fin 50
     \<and> total_annual_rent (fst (scenario_result src n1 n2 n3)) = Fin 15000
     \<and> rows_missing_sqm (snd (scenario_result src n1 n2 n3)) = [n2, n3]
     \<and> rows_missing_rent (snd (scenario_result src n1 n2 n3)) = [n2]
     \<and> avg_rent_per_sqm (fst (scenario_result src n1 n2 n3)) = Fin 200"
    unfolding scenario_result_def stats_total_sqm stats_total_rent stats_missing_sqm
      stats_missing_rent avg_is_mean_of_ratios scenario_idx
    by (simp add: scenario_rows_def scenario_values positive_def qualifying_def own_ratio_def
        mean_def float_sum_def scenario_arithmetic
        del: fadd.simps fdiv.simps round2.simps)
  then have "fdiv (total_annual_rent (fst (scenario_result src n1 n2 n3)))
           (total_sqm (fst (scenario_result src n1 n2 n3))) = Fin 300"
    by (simp add: scenario_arithmetic del: fdiv.simps)
  with concrete show ?thesis
    using avg_is_mean_of_ratios by blast
qed

section \<open>Column mapper\<close>

lemma partial_match_find:
  "partial_match cm h = map_option snd (find (\<lambda>(synonym, tag). sublist synonym h \<or> sublist h synonym) cm)"
  by (induction cm h rule: partial_match.induct) (simp_all add: contains_def)

lemma map_header_rule: "map_header h = column_rule h"
  unfolding map_header_def column_rule_def first_synonym_def partial_match_find ..

lemma map_columns_loop_lookup:
  "map_of (map_columns_loop m hs) k =
     (if k \<in> strip ` {h. Some h \<in> set hs}
      then (case column_rule (lower k) of Some t \<Rightarrow> Some t | None \<Rightarrow> map_of m k)
      else map_of m k)"
proof (induction m hs rule: map_columns_loop.induct)
  case (1 mapping)
  then show ?case by simp
next
  case (2 mapping headers)
  then show ?case by simp
next
  case (3 mapping header headers)
  show ?case
  proof (cases "map_header (lower (strip header))")
    case None
    with 3 show ?thesis
      by (auto simp: Let_def map_header_rule split: option.splits)
  next
    case (Some t)
    with 3 show ?thesis
      by (auto simp: Let_def map_header_rule update_conv' split: option.splits)
  qed
qed

lemma claimed_mapping:
  "map_columns claimed_headers =
     [(''Lejnr.'', Unit_id), (''Areal'', Sqm), (''Leje'', Annual_rent), (''Etage'', Floor),
      (''Bem.'', Notes)]"
  by code_simp

lemma claimed_exact:
  "map_of COLUMN_MAPPING (lower (strip ''Lejnr.'')) = None"
  "map_of COLUMN_MAPPING (lower (strip ''Areal'')) = Some Sqm"
  "map_of COLUMN_MAPPING (lower (strip ''Leje'')) = Some Annual_rent"
  "map_of COLUMN_MAPPING (lower (strip ''Etage'')) = Some Floor"
  "map_of COLUMN_MAPPING (lower (strip ''Bem.'')) = None"
  "first_synonym (lower (strip ''Lejnr.'')) = Some (''lejnr'', Unit_id)"
  "first_synonym (lower (strip ''Bem.'')) = Some (''bem'', Notes)"
  by code_simp+

text \<open>
  C4. For the header strings \<open>"Lejnr."\<close>, \<open>"Areal"\<close>, \<open>"Leje"\<close>, \<open>"Etage"\<close>,
  \<open>"Bem."\<close> the column mapper assigns \<open>unit_id\<close>, \<open>sqm\<close>, \<open>annual_rent\<close>, \<open>floor\<close>,
  \<open>notes\<close>; and every header cell of every header row is mapped, under its stripped text, by
  the exact lookup of its lower-cased text in the synonym table and otherwise by the first
  entry in declaration order whose synonym is a part of that text or has it as a part (to
  nothing when there is no such entry).
\<close>

theorem column_mapper:
  "map_columns claimed_headers =
     [(''Lejnr.'', Unit_id), (''Areal'', Sqm), (''Leje'', Annual_rent), (''Etage'', Floor),
      (''Bem.'', Notes)]
   \<and> (\<forall>headers header. Some header \<in> set headers \<longrightarrow>
         map_of (map_columns headers) (strip header) = column_rule (lower (strip header)))"
proof (intro conjI allI impI)
  show "map_columns claimed_headers =
     [(''Lejnr.'', Unit_id), (''Areal'', Sqm), (''Leje'', Annual_rent), (''Etage'', Floor),
      (''Bem.'', Notes)]"
    by (rule claimed_mapping)
next
  fix headers :: table_row and header :: pystr
  assume "Some header \<in> set headers"
  then have "strip header \<in> strip ` {h. Some h \<in> set headers}"
    by blast
  then show "map_of (map_columns headers) (strip header) = column_rule (lower (strip header))"
    by (simp add: map_columns_def map_columns_loop_lookup split: option.splits)
qed

theorem column_mapper_witness:
  "Some ''Bem.'' \<in> set claimed_headers
   \<and> map_of (map_columns claimed_headers) (strip ''Bem.'') = Some Notes
   \<and> column_rule (lower (strip ''Bem.'')) = Some Notes"
proof -
  have m: "Some ''Bem.'' \<in> set claimed_headers" by (simp add: claimed_headers_def)
  have r: "column_rule (lower (strip ''Bem.'')) = Some Notes"
    by (simp add: column_rule_def claimed_exact)
  from column_mapper m r show ?thesis by metis
qed

section \<open>Numeric normalizer\<close>

lemma digit_not_other:
  assumes "isdigit c"
  shows "\<not> isspace c" "c \<noteq> CHR ''.''" "c \<noteq> CHR '',''" "\<not> is_currency_char c"
    "\<not> is_exp_mark c" "c \<noteq> CHR ''-''" "c \<noteq> CHR ''+''" "c \<noteq> CHR ''_''"
  using assms
  by (auto simp: isdigit_def isspace_def is_currency_char_def is_exp_mark_def Let_def)

lemma period_not_other:
  "\<not> isspace CHR ''.''" "\<not> is_currency_char CHR ''.''" "\<not> is_exp_mark CHR ''.''"
  "\<not> isdigit CHR ''.''"
  by (simp_all add: isdigit_def isspace_def is_currency_char_def is_exp_mark_def)

lemma strip_id: "list_all (\<lambda>c. \<not> isspace c) s \<Longrightarrow> strip s = s"
proof -
  assume a: "list_all (\<lambda>c. \<not> isspace c) s"
  then have 1: "dropWhile isspace s = s"
    by (cases s) simp_all
  from a have "list_all (\<lambda>c. \<not> isspace c) (rev s)"
    by (simp add: list_all_iff)
  then have 2: "dropWhile isspace (rev s) = rev s"
    by (cases "rev s") simp_all
  show ?thesis
    by (simp add: strip_def lstrip_def rstrip_def 1 2)
qed

lemma filter_absent: "c \<notin> set s \<Longrightarrow> filter (\<lambda>x. x \<noteq> c) s = s"
  by (induction s) auto

lemma split_char_none: "c \<notin> set s \<Longrightarrow> split_char c s = [s]"
  by (induction s) auto

lemma split_char_one: "c \<notin> set a \<Longrightarrow> split_char c (a @ c # b) = a # split_char c b"
  by (induction a) auto

lemma digitpart_digits: "list_all isdigit s \<Longrightarrow> digitpart s = (s \<noteq> [])"
  by (induction s rule: digitpart.induct) (auto simp: digit_not_other)


lemma parse_number_point:
  assumes "list_all isdigit a" "list_all isdigit b" "a @ b \<noteq> []"
  shows "parse_number (a @ CHR ''.'' # b) = Some (dec_value (a @ b), length b)"
proof -
  from assms(1) have na: "CHR ''.'' \<notin> set a"
    using period_not_other(4) by (auto simp: list_all_iff)
  then have tw: "takeWhile (\<lambda>c. c \<noteq> CHR ''.'') (a @ CHR ''.'' # b) = a"
    by (induction a) auto
  from na have dw: "dropWhile (\<lambda>c. c \<noteq> CHR ''.'') (a @ CHR ''.'' # b) = CHR ''.'' # b"
    by (induction a) auto
  from assms(2) have nd: "num_digits b = length b"
    by (simp add: num_digits_def list_all_iff)
  from assms show ?thesis
    by (auto simp: parse_number_def tw dw nd Let_def digitpart_digits)
qed

lemma parse_number_plain:
  assumes "list_all isdigit a" "a \<noteq> []"
  shows "parse_number a = Some (dec_value a, 0)"
proof -
  from assms(1) have na: "\<forall>c\<in>set a. c \<noteq> CHR ''.''"
    using period_not_other(4) by (auto simp: list_all_iff)
  then have tw: "takeWhile (\<lambda>c. c \<noteq> CHR ''.'') a = a"
    by (simp add: takeWhile_eq_all_conv)
  from na have dw: "dropWhile (\<lambda>c. c \<noteq> CHR ''.'') a = []"
    by simp
  from assms show ?thesis
    by (simp add: parse_number_def tw dw Let_def digitpart_digits)
qed

lemma parse_unsigned_plain:
  assumes "list_all (\<lambda>c. \<not> is_exp_mark c) s"
  shows "parse_unsigned s =
    (case parse_number s of None \<Rightarrow> None | Some (n, k) \<Rightarrow> Some (of_int n / 10 ^ k))"
proof -
  from assms have tw: "takeWhile (\<lambda>c. \<not> is_exp_mark c) s = s"
    by (simp add: takeWhile_eq_all_conv list_all_iff)
  from assms have dw: "dropWhile (\<lambda>c. \<not> is_exp_mark c) s = []"
    by (simp add: list_all_iff)
  show ?thesis
    by (simp add: parse_unsigned_def tw dw Let_def split: option.splits)
qed

lemma parse_decimal_unsigned:
  assumes "list_all (\<lambda>c. \<not> isspace c) s" "s \<noteq> []" "hd s \<noteq> CHR ''-''" "hd s \<noteq> CHR ''+''"
  shows "parse_decimal s = parse_unsigned s"
  using assms by (cases s) (simp_all add: parse_decimal_def strip_id)

lemma float_of_digits_point:
  assumes "list_all isdigit a" "list_all isdigit b" "a @ b \<noteq> []"
  shows "float_of_str (a @ CHR ''.'' # b) =
    Some (to_double (of_int (dec_value (a @ b)) / 10 ^ length b))"
proof -
  let ?s = "a @ CHR ''.'' # b"
  have chars: "\<forall>c\<in>set ?s. isdigit c \<or> c = CHR ''.''"
    using assms(1,2) by (auto simp: list_all_iff)
  then have sp: "list_all (\<lambda>c. \<not> isspace c) ?s"
    unfolding list_all_iff using digit_not_other(1) period_not_other(1) by blast
  from chars have ex: "list_all (\<lambda>c. \<not> is_exp_mark c) ?s"
    unfolding list_all_iff using digit_not_other(5) period_not_other(3) by blast
  have "hd ?s \<in> set ?s" by (rule hd_in_set) simp
  with chars have "isdigit (hd ?s) \<or> hd ?s = CHR ''.''" by blast
  then have sg: "hd ?s \<noteq> CHR ''-''" "hd ?s \<noteq> CHR ''+''"
    using digit_not_other(6,7) by auto
  have "parse_decimal ?s = parse_unsigned ?s"
    using sp sg by (intro parse_decimal_unsigned) simp_all
  then show ?thesis
    by (simp add: float_of_str_def parse_unsigned_plain [OF ex] parse_number_point [OF assms])
qed

lemma float_of_digits:
  assumes "list_all isdigit a" "a \<noteq> []"
  shows "float_of_str a = Some (to_double (of_int (dec_value a)))"
proof -
  from assms(1) have sp: "list_all (\<lambda>c. \<not> isspace c) a"
    unfolding list_all_iff using digit_not_other(1) by blast
  from assms(1) have ex: "list_all (\<lambda>c. \<not> is_exp_mark c) a"
    unfolding list_all_iff using digit_not_other(5) by blast
  have "hd a \<in> set a" using assms(2) by simp
  with assms(1) have "isdigit (hd a)" by (simp add: list_all_iff)
  then have sg: "hd a \<noteq> CHR ''-''" "hd a \<noteq> CHR ''+''"
    using digit_not_other(6,7) by auto
  have "parse_decimal a = parse_unsigned a"
    using sp sg assms(2) by (intro parse_decimal_unsigned) simp_all
  then show ?thesis
    by (simp add: float_of_str_def parse_unsigned_plain [OF ex] parse_number_plain [OF assms])
qed

lemma normalize_digits_point:
  assumes "list_all isdigit a" "list_all isdigit b"
  shows "normalize_separators (a @ CHR ''.'' # b) =
     (if length b = 3 \<and> length a \<le> 3 then a @ b else a @ CHR ''.'' # b)"
proof -
  from assms have na: "CHR ''.'' \<notin> set a" and nb: "CHR ''.'' \<notin> set b"
    using period_not_other(4) by (auto simp: list_all_iff)
  from assms have nc: "CHR '','' \<notin> set (a @ CHR ''.'' # b)"
    using digit_not_other(3) by (auto simp: list_all_iff)
  from na nb have pc: "period_count (a @ CHR ''.'' # b) = 1"
    by (auto simp: period_count_def filter_empty_conv)
  from na nb have sp: "split_char CHR ''.'' (a @ CHR ''.'' # b) = [a, b]"
    by (simp add: split_char_one split_char_none)
  from na nb have rm: "remove_char CHR ''.'' (a @ CHR ''.'' # b) = a @ b"
    by (simp add: remove_char_def filter_absent)
  show ?thesis
    unfolding normalize_separators_def using nc by (simp add: pc sp rm Let_def)
qed

lemma clean_digits_point:
  assumes "list_all isdigit a" "list_all isdigit b"
  shows "remove_currency (strip (a @ CHR ''.'' # b)) = a @ CHR ''.'' # b"
proof -
  let ?s = "a @ CHR ''.'' # b"
  have chars: "\<forall>c\<in>set ?s. isdigit c \<or> c = CHR ''.''"
    using assms by (auto simp: list_all_iff)
  then have sp: "list_all (\<lambda>c. \<not> isspace c) ?s"
    unfolding list_all_iff using digit_not_other(1) period_not_other(1) by blast
  from chars have "\<forall>c\<in>set ?s. \<not> is_currency_char c"
    using digit_not_other(4) period_not_other(2) by blast
  then have "remove_currency ?s = ?s"
    unfolding remove_currency_def by (simp only: filter_id_conv) 
  then show ?thesis by (simp only: strip_id [OF sp])
qed

lemma convert_digits_point:
  assumes "list_all isdigit a" "list_all isdigit b" "a @ b \<noteq> []"
  shows "convert_danish_number (PStr (a @ CHR ''.'' # b)) =
     Inr (Some (to_double (if length b = 3 \<and> length a \<le> 3 then of_int (dec_value (a @ b))
                           else of_int (dec_value (a @ b)) / 10 ^ length b)))"
proof -
  define s where "s = a @ CHR ''.'' # b"
  from assms have dg: "list_ex isdigit s"
    unfolding s_def by (cases a; cases b) (auto simp: list_ex_iff)
  have cl: "remove_currency (strip s) = s"
    unfolding s_def by (rule clean_digits_point [OF assms(1,2)])
  have ne: "s \<noteq> []" by (simp add: s_def)
  have "list_all (\<lambda>c. \<not> isspace c) s"
    unfolding s_def list_all_iff
    using assms(1,2) digit_not_other(1) period_not_other(1) by (auto simp: list_all_iff)
  then have st: "strip s = s" by (rule strip_id)
  have 1: "convert_danish_str s = float_of_str (normalize_separators s)"
    using cl dg ne by (simp add: convert_danish_str_def st)
  from assms(1,2) have ab: "list_all isdigit (a @ b)" by simp
  have 2: "float_of_str (normalize_separators s) =
     Some (to_double (if length b = 3 \<and> length a \<le> 3 then of_int (dec_value (a @ b))
                      else of_int (dec_value (a @ b)) / 10 ^ length b))"
    unfolding s_def normalize_digits_point [OF assms(1,2)]
    using float_of_digits_point [OF assms] float_of_digits [OF ab assms(3)]
    by simp
  show ?thesis
    using 1 2 by (simp add: convert_danish_number_def s_def)
qed

lemma claimed_numbers:
  "convert_danish_number (PStr ''72.000'') = Inr (Some (Fin 72000))"
  "convert_danish_number (PStr ''1.234,56'') = Inr (Some (to_double (123456 / 100)))"
  "convert_danish_number (PStr ''kr 72.000'') = Inr (Some (Fin 72000))"
  "convert_danish_number (PStr []) = Inr None"
  "convert_danish_number (PStr ''1.5'') = Inr (Some (Fin (3 / 2)))"
  by code_simp+

lemma comma_rule:
  assumes "strip s \<noteq> []" "list_ex isdigit (remove_currency (strip s))"
    "CHR '','' \<in> set (remove_currency (strip s))"
  shows "convert_danish_number (PStr s) =
     Inr (float_of_str (replace_char CHR '','' CHR ''.''
       (remove_char CHR ''.'' (remove_currency (strip s)))))"
  using assms
  by (simp add: convert_danish_number_def convert_danish_str_def Let_def normalize_separators_def)

lemma unsigned_period_rule:
  assumes "all_digits a" "all_digits b" "a @ b \<noteq> []"
  shows "normalize_separators (a @ ''.'' @ b) =
          (if length b = 3 \<and> length a \<le> 3 then a @ b else a @ ''.'' @ b)"
  using assms normalize_digits_point unfolding all_digits_def by simp

lemma signed_parts:
  "remove_currency (strip ''-123.456'') = ''-123.456''"
  "period_count ''-123.456'' = 1"
  "split_char CHR ''.'' ''-123.456'' = [''-123'', ''456'']"
  "all_digits ''456''" "num_digits ''-123'' = 3" "length ''-123'' = 4"
  "normalize_separators ''-123.456'' = ''-123.456''"
  "normalize_separators ''123.456'' = ''123456''"
  "normalize_separators ''-12.345'' = ''-12345''"
  "normalize_separators ''1.5e3'' = ''15e3''"
  by code_simp+

lemma signed_numbers:
  "convert_danish_number (PStr ''-123.456'') = Inr (Some (to_double (- (123456 / 1000))))"
  "convert_danish_number (PStr ''123.456'') = Inr (Some (Fin 123456))"
  "convert_danish_number (PStr ''-12.345'') = Inr (Some (Fin (- 12345)))"
  "convert_danish_number (PStr ''1.5e3'') = Inr (Some (Fin 15000))"
  "to_double (- (123456 / 1000)) \<noteq> Fin (- 123456)"
  by code_simp+

text \<open>
  C3. The five values of the claim are those of the code (\<open>claimed_numbers\<close>), the comma rule
  holds (\<open>comma_rule\<close>), and between two strings of digits the single period is handled as the
  claim says (\<open>unsigned_period_rule\<close>, \<open>convert_digits_point\<close>). The code tests the lengths of
  the two parts around the period, though, not the number of digits in them, and so the
  claim is not met when a part holds another character. In \<open>"-123.456"\<close> the single period
  is followed by exactly 3 digits and has 3 digits before it, and yet it is kept as the
  decimal point, the sign being a fourth character of the part before it: the result is
  \<open>-123.456\<close>, while \<open>"123.456"\<close> gives \<open>123456\<close> and \<open>"-12.345"\<close> gives \<open>-12345\<close>. In \<open>"1.5e3"\<close>
  the period is followed by one digit only, and yet it is removed, the part after it being
  3 characters long: the result is \<open>15000\<close>, not \<open>1500\<close>.
\<close>

theorem signed_period_kept:
  "remove_currency (strip ''-123.456'') = ''-123.456''
   \<and> period_count ''-123.456'' = 1
   \<and> split_char CHR ''.'' ''-123.456'' = [''-123'', ''456'']
   \<and> all_digits ''456'' \<and> length ''456'' = 3 \<and> num_digits ''-123'' = 3
   \<and> length ''-123'' = 4
   \<and> normalize_separators ''-123.456'' = ''-123.456''
   \<and> convert_danish_number (PStr ''-123.456'') = Inr (Some (to_double (- (123456 / 1000))))
   \<and> to_double (- (123456 / 1000)) \<noteq> Fin (- 123456)
   \<and> convert_danish_number (PStr ''123.456'') = Inr (Some (Fin 123456))
   \<and> convert_danish_number (PStr ''-12.345'') = Inr (Some (Fin (- 12345)))
   \<and> normalize_separators ''1.5e3'' = ''15e3''
   \<and> convert_danish_number (PStr ''1.5e3'') = Inr (Some (Fin 15000))"
  using signed_parts signed_numbers by simp

section \<open>Header locator\<close>

lemma row_score_empty: "row_score [] = 0"
  by (simp add: row_score_def)

lemma header_scan_skip:
  "row_score r \<le> bs \<Longrightarrow>
   header_scan (bs, bi, br) idx (r # rs) = header_scan (bs, bi, br) (Suc idx) rs"
  by (simp add: row_score_empty)

lemma header_scan_take:
  "bs < row_score r \<Longrightarrow>
   header_scan (bs, bi, br) idx (r # rs) = header_scan (row_score r, int idx, Some r) (Suc idx) rs"
  using row_score_empty by auto

lemma header_scan_cases:
  "(header_scan (bs, bi, br) idx rs = (bs, bi, br) \<and> (\<forall>r\<in>set rs. row_score r \<le> bs))
   \<or> (\<exists>k<length rs.
        header_scan (bs, bi, br) idx rs = (row_score (rs ! k), int (idx + k), Some (rs ! k))
        \<and> bs < row_score (rs ! k)
        \<and> (\<forall>j<k. row_score (rs ! j) < row_score (rs ! k))
        \<and> (\<forall>r\<in>set rs. row_score r \<le> row_score (rs ! k)))"
proof (induction rs arbitrary: bs bi br idx)
  case Nil
  then show ?case by simp
next
  case (Cons r rs)
  show ?case
  proof (cases "bs < row_score r")
    case False
    then have step: "header_scan (bs, bi, br) idx (r # rs) = header_scan (bs, bi, br) (Suc idx) rs"
      by (simp add: header_scan_skip)
    from Cons.IH [of bs bi br "Suc idx"] show ?thesis
    proof (elim disjE exE conjE)
      assume "header_scan (bs, bi, br) (Suc idx) rs = (bs, bi, br)"
        and "\<forall>r\<in>set rs. row_score r \<le> bs"
      with False step show ?thesis by auto
    next
      fix k
      assume k: "k < length rs"
        and res: "header_scan (bs, bi, br) (Suc idx) rs
                  = (row_score (rs ! k), int (Suc idx + k), Some (rs ! k))"
        and gt: "bs < row_score (rs ! k)"
        and before: "\<forall>j<k. row_score (rs ! j) < row_score (rs ! k)"
        and all: "\<forall>r\<in>set rs. row_score r \<le> row_score (rs ! k)"
      have "\<forall>j<Suc k. row_score ((r # rs) ! j) < row_score ((r # rs) ! Suc k)"
      proof (intro allI impI)
        fix j assume "j < Suc k"
        then show "row_score ((r # rs) ! j) < row_score ((r # rs) ! Suc k)"
          using False gt before by (cases j) auto
      qed
      moreover have "\<forall>x\<in>set (r # rs). row_score x \<le> row_score ((r # rs) ! Suc k)"
        using False gt all by auto
      ultimately have "Suc k < length (r # rs)
        \<and> header_scan (bs, bi, br) idx (r # rs)
            = (row_score ((r # rs) ! Suc k), int (idx + Suc k), Some ((r # rs) ! Suc k))
        \<and> bs < row_score ((r # rs) ! Suc k)
        \<and> (\<forall>j<Suc k. row_score ((r # rs) ! j) < row_score ((r # rs) ! Suc k))
        \<and> (\<forall>x\<in>set (r # rs). row_score x \<le> row_score ((r # rs) ! Suc k))"
        using k res gt step by simp
      then show ?thesis by blast
    qed
  next
    case True
    then have step: "header_scan (bs, bi, br) idx (r # rs)
                     = header_scan (row_score r, int idx, Some r) (Suc idx) rs"
      by (rule header_scan_take)
    from Cons.IH [of "row_score r" "int idx" "Some r" "Suc idx"] show ?thesis
    proof (elim disjE exE conjE)
      assume "header_scan (row_score r, int idx, Some r) (Suc idx) rs = (row_score r, int idx, Some r)"
        and "\<forall>x\<in>set rs. row_score x \<le> row_score r"
      then have "0 < length (r # rs)
        \<and> header_scan (bs, bi, br) idx (r # rs)
            = (row_score ((r # rs) ! 0), int (idx + 0), Some ((r # rs) ! 0))
        \<and> bs < row_score ((r # rs) ! 0)
        \<and> (\<forall>j<0. row_score ((r # rs) ! j) < row_score ((r # rs) ! 0))
        \<and> (\<forall>x\<in>set (r # rs). row_score x \<le> row_score ((r # rs) ! 0))"
        using True step by simp
      then show ?thesis by blast
    next
      fix k
      assume k: "k < length rs"
        and res: "header_scan (row_score r, int idx, Some r) (Suc idx) rs
                  = (row_score (rs ! k), int (Suc idx + k), Some (rs ! k))"
        and gt: "row_score r < row_score (rs ! k)"
        and before: "\<forall>j<k. row_score (rs ! j) < row_score (rs ! k)"
        and all: "\<forall>r\<in>set rs. row_score r \<le> row_score (rs ! k)"
      have "\<forall>j<Suc k. row_score ((r # rs) ! j) < row_score ((r # rs) ! Suc k)"
      proof (intro allI impI)
        fix j assume "j < Suc k"
        then show "row_score ((r # rs) ! j) < row_score ((r # rs) ! Suc k)"
          using gt before by (cases j) auto
      qed
      moreover have "\<forall>x\<in>set (r # rs). row_score x \<le> row_score ((r # rs) ! Suc k)"
        using gt all by auto
      ultimately have "Suc k < length (r # rs)
        \<and> header_scan (bs, bi, br) idx (r # rs)
            = (row_score ((r # rs) ! Suc k), int (idx + Suc k), Some ((r # rs) ! Suc k))
        \<and> bs < row_score ((r # rs) ! Suc k)
        \<and> (\<forall>j<Suc k. row_score ((r # rs) ! j) < row_score ((r # rs) ! Suc k))
        \<and> (\<forall>x\<in>set (r # rs). row_score x \<le> row_score ((r # rs) ! Suc k))"
        using k res gt step True by simp
      then show ?thesis by blast
    qed
  qed
qed

lemma header_scan_stored:
  "header_scan (0, - 1, None) 0 rs = (best_score, best_row_idx, best_row) \<Longrightarrow> 0 < best_score
   \<Longrightarrow> \<exists>k<length rs. best_row_idx = int k \<and> best_row = Some (rs ! k)"
  using header_scan_cases [of 0 "- 1" None 0 rs] by auto

lemma find_header_row_best:
  assumes "\<exists>i<length (take 15 tbl). 2 \<le> row_score (take 15 tbl ! i)"
  shows "\<exists>k<length (take 15 tbl).
           find_header_row tbl = Inr (k, take 15 tbl ! k)
           \<and> 2 \<le> row_score (take 15 tbl ! k)
           \<and> (\<forall>j<length (take 15 tbl). row_score (take 15 tbl ! j) \<le> row_score (take 15 tbl ! k))
           \<and> (\<forall>j<k. row_score (take 15 tbl ! j) < row_score (take 15 tbl ! k))"
proof -
  define w where "w = take 15 tbl"
  from assms obtain i where i: "i < length w" "2 \<le> row_score (w ! i)"
    unfolding w_def by blast
  then have "w ! i \<in> set w" by simp
  with i have not_all: "\<not> (\<forall>r\<in>set w. row_score r \<le> 0)" by force
  from header_scan_cases [of 0 "- 1" None 0 w] not_all
  obtain k where k: "k < length w"
    and res: "header_scan (0, - 1, None) 0 w = (row_score (w ! k), int (0 + k), Some (w ! k))"
    and before: "\<forall>j<k. row_score (w ! j) < row_score (w ! k)"
    and all: "\<forall>r\<in>set w. row_score r \<le> row_score (w ! k)"
    by blast
  from all \<open>w ! i \<in> set w\<close> have "row_score (w ! i) \<le> row_score (w ! k)" by blast
  with i have big: "2 \<le> row_score (w ! k)" by linarith
  from all have all': "\<forall>j<length w. row_score (w ! j) \<le> row_score (w ! k)" by simp
  from res big have "find_header_row tbl = Inr (k, w ! k)"
    by (simp add: find_header_row_def find_header_row_upto_def w_def)
  with k big all' before show ?thesis unfolding w_def by blast
qed

lemma find_header_row_none:
  assumes "\<forall>r\<in>set (take 15 tbl). row_score r < 2"
  shows "find_header_row tbl = raise_error NoHeaderFound"
proof -
  define w where "w = take 15 tbl"
  from header_scan_cases [of 0 "- 1" None 0 w]
  have "\<exists>b i r. header_scan (0, - 1, None) 0 w = (b, i, r) \<and> b < 2"
  proof (elim disjE exE conjE)
    assume "header_scan (0, - 1, None) 0 w = (0, - 1, None)"
    then show ?thesis by simp
  next
    fix k assume "k < length w"
      and "header_scan (0, - 1, None) 0 w = (row_score (w ! k), int (0 + k), Some (w ! k))"
    moreover from \<open>k < length w\<close> have "w ! k \<in> set w" by simp
    with assms have "row_score (w ! k) < 2" unfolding w_def by blast
    ultimately show ?thesis by blast
  qed
  then show ?thesis
    by (auto simp: find_header_row_def find_header_row_upto_def w_def)
qed

lemma two_header_scores:
  "row_score [Some ''Areal'', Some ''Leje''] = 2"
  "row_score [Some ''Areal'', Some ''Leje'', Some ''Etage''] = 4"
  "row_score [Some ''50'', Some ''1000'', Some ''1''] = 1"
  "row_score [Some ''A1'', Some ''50''] = 0"
  "row_score [Some ''A2'', Some ''60''] = 0"
  by code_simp+

text \<open>
  C2, as the specification states it, fails: the locator does not return the first row that
  scores 2 or more. In the table below the first row scores 2 and the second row scores 4,
  and the second row is returned.
\<close>

theorem first_qualifying_row_not_chosen:
  "2 \<le> row_score (two_header_table ! 0)
   \<and> find_header_row two_header_table = Inr (1, two_header_table ! 1)
   \<and> find_header_row two_header_table \<noteq> Inr (0, two_header_table ! 0)"
  by (simp add: two_header_table_def find_header_row_def find_header_row_upto_def two_header_scores)

text \<open>
  C2, amended. For every table, when some row among the first 15 scores 2 or more, the header
  locator returns the earliest row among the first 15 that attains the highest score of those
  rows (every row before it scores strictly less, no row among the 15 scores more); and for
  every table in which no row among the first 15 scores at least 2 it fails with
  \<open>NoHeaderFound\<close>.
\<close>

theorem header_locator:
  "((\<exists>i<length (take 15 tbl). 2 \<le> row_score (take 15 tbl ! i)) \<longrightarrow>
      (\<exists>k<length (take 15 tbl).
         find_header_row tbl = Inr (k, take 15 tbl ! k)
         \<and> 2 \<le> row_score (take 15 tbl ! k)
         \<and> (\<forall>j<length (take 15 tbl). row_score (take 15 tbl ! j) \<le> row_score (take 15 tbl ! k))
         \<and> (\<forall>j<k. row_score (take 15 tbl ! j) < row_score (take 15 tbl ! k))))
   \<and> ((\<forall>r\<in>set (take 15 tbl). row_score r < 2) \<longrightarrow>
        find_header_row tbl = raise_error NoHeaderFound)"
  using find_header_row_best [of tbl] find_header_row_none [of tbl] by blast


theorem header_locator_witness:
  "2 \<le> row_score (take 15 two_header_table ! 0)
   \<and> find_header_row two_header_table = Inr (1, two_header_table ! 1)
   \<and> list_all (\<lambda>r. row_score r < 2) (take 15 no_header_table)
   \<and> find_header_row no_header_table = raise_error NoHeaderFound"
proof -
  have tk: "take 15 two_header_table = two_header_table" "length two_header_table = 3"
    "take 15 no_header_table = no_header_table"
    by (simp_all add: two_header_table_def no_header_table_def)
  have sc: "row_score (two_header_table ! 0) = 2" "row_score (two_header_table ! 1) = 4"
    "row_score (two_header_table ! 2) = 1"
    by (simp_all add: two_header_table_def two_header_scores)
  have low: "\<forall>r\<in>set (take 15 no_header_table). row_score r < 2"
    by (simp add: no_header_table_def two_header_scores)
  have "\<exists>i<length (take 15 two_header_table). 2 \<le> row_score (take 15 two_header_table ! i)"
    unfolding tk using sc(1) by (intro exI [of _ 0]) simp
  with header_locator [of two_header_table]
  obtain k where k: "k < 3"
    and res: "find_header_row two_header_table = Inr (k, two_header_table ! k)"
    and all: "\<forall>j<3. row_score (two_header_table ! j) \<le> row_score (two_header_table ! k)"
    unfolding tk by blast
  from all have "row_score (two_header_table ! 1) \<le> row_score (two_header_table ! k)"
    by simp
  then have four: "4 \<le> row_score (two_header_table ! k)" unfolding sc(2) .
  from k consider "k = 0" | "k = 1" | "k = 2" by linarith
  then have "k = 1"
    using four sc by cases simp_all
  with res have r1: "find_header_row two_header_table = Inr (1, two_header_table ! 1)"
    by simp
  from header_locator [of no_header_table] low
  have r2: "find_header_row no_header_table = raise_error NoHeaderFound"
    by blast
  from low have "list_all (\<lambda>r. row_score r < 2) (take 15 no_header_table)"
    by (simp add: list_all_iff)
  with r1 r2 sc tk show ?thesis by simp
qed

section \<open>Entry point\<close>

lemma docx_suffix: "lower (path_suffix ''/tmp/report.docx'') = ''.docx''"
  by code_simp

text \<open>
  C8, as the specification states it, fails for a path that does not exist: the entry point
  tests \<open>os.path.exists\<close> before it looks at the extension, so a missing \<open>.docx\<close> path
  fails with \<open>FileNotFound\<close>.
\<close>

theorem missing_docx_is_file_not_found:
  "lower (path_suffix ''/tmp/report.docx'') = ''.docx''
   \<and> parse_rent_roll (unreadable_world False) ''/tmp/report.docx''
       = Inl (FileNotFound, Some ''File not found: /tmp/report.docx'')
   \<and> parse_rent_roll (unreadable_world False) ''/tmp/report.docx'' \<noteq> raise_error InvalidFileType"
  by (simp add: docx_suffix parse_rent_roll_def unreadable_world_def raise_error_def)

text \<open>
  C8, amended. For every path that exists and whose extension, in lower case, is none of
  \<open>.xlsx\<close>, \<open>.xls\<close> and \<open>.pdf\<close>, parsing fails with \<open>InvalidFileType\<close>, whatever the
  spreadsheet reader, the PDF table extractor and the OCR engine would answer: none of them
  is called. A path that does not exist fails with \<open>FileNotFound\<close>, whatever its extension.
\<close>

theorem invalid_file_type_first:
  "(path_exists w file_path
      \<and> lower (path_suffix file_path) \<noteq> ''.xlsx''
      \<and> lower (path_suffix file_path) \<noteq> ''.xls''
      \<and> lower (path_suffix file_path) \<noteq> ''.pdf'' \<longrightarrow>
      parse_rent_roll w file_path = raise_error InvalidFileType
      \<and> (\<forall>lw et its.
            parse_rent_roll (w\<lparr>load_workbook := lw, extract_tables := et, image_to_string := its\<rparr>)
              file_path = raise_error InvalidFileType))
   \<and> (\<not> path_exists w file_path \<longrightarrow>
        parse_rent_roll w file_path = Inl (FileNotFound, Some (''File not found: '' @ file_path)))"
  by (simp add: parse_rent_roll_def detect_file_type_def Let_def raise_error_def)

theorem invalid_file_type_first_witness:
  "path_exists (unreadable_world True) ''/tmp/report.docx''
   \<and> lower (path_suffix ''/tmp/report.docx'') = ''.docx''
   \<and> parse_rent_roll (unreadable_world True) ''/tmp/report.docx'' = raise_error InvalidFileType
   \<and> \<not> path_exists (unreadable_world False) ''/tmp/report.docx''
   \<and> parse_rent_roll (unreadable_world False) ''/tmp/report.docx''
       = Inl (FileNotFound, Some ''File not found: /tmp/report.docx'')"
proof -
  have e: "path_exists (unreadable_world True) ''/tmp/report.docx''"
    "\<not> path_exists (unreadable_world False) ''/tmp/report.docx''"
    by (simp_all add: unreadable_world_def)
  have n: "lower (path_suffix ''/tmp/report.docx'') \<noteq> ''.xlsx''"
    "lower (path_suffix ''/tmp/report.docx'') \<noteq> ''.xls''"
    "lower (path_suffix ''/tmp/report.docx'') \<noteq> ''.pdf''"
    by (simp_all add: docx_suffix)
  from invalid_file_type_first [of "unreadable_world True" "''/tmp/report.docx''"] e n
  have 1: "parse_rent_roll (unreadable_world True) ''/tmp/report.docx'' = raise_error InvalidFileType"
    by blast
  from invalid_file_type_first [of "unreadable_world False" "''/tmp/report.docx''"] e
  have 2: "parse_rent_roll (unreadable_world False) ''/tmp/report.docx''
       = Inl (FileNotFound, Some (''File not found: '' @ ''/tmp/report.docx''))"
    by blast
  from e 1 2 docx_suffix show ?thesis by simp
qed

section \<open>The rows both pipelines keep\<close>

lemma excel_extract_closed:
  "excel_extract name rt h off data_rows =
     map (\<lambda>(i, r). \<lparr>raw = map cell_str r, source = name, row_num = h + i + 2, rent_type = rt\<rparr>)
       (filter (\<lambda>(i, r). 2 \<le> non_empty_count (map cell_str r))
          (enumerate off (takeWhile (\<lambda>r. \<not> is_end_row r) data_rows)))"
  by (induction data_rows arbitrary: off) (simp_all add: Let_def not_less)

lemma pdf_extract_closed:
  "pdf_extract p seen off data_rows =
     map (\<lambda>(i, r). \<lparr>raw = map cell_str r, source = page_source p, row_num = i + 1,
                     rent_type = None\<rparr>)
       (filter (\<lambda>(i, r). \<not> is_end_row r \<and> 2 \<le> non_empty_count (map cell_str r)
                          \<and> row_sig (map cell_str r) \<notin> set seen)
          (enumerate off data_rows))"
  by (induction data_rows arbitrary: off) (simp_all add: Let_def not_less)

lemma excel_sheet_segment:
  "x_all_rows (excel_sheet st sh) = x_all_rows st @ sheet_segment sh"
proof -
  obtain name reading where sh: "sh = (name, reading)" by (cases sh)
  show ?thesis
  proof (cases reading)
    case (Raised msg)
    with sh show ?thesis by (simp add: excel_sheet_def sheet_segment_def warn_def)
  next
    case (Returned sheet_rows)
    show ?thesis
    proof (cases "length sheet_rows < 3")
      case True
      with sh Returned show ?thesis by (simp add: excel_sheet_def sheet_segment_def warn_def)
    next
      case False
      show ?thesis
      proof (cases "find_header_row sheet_rows")
        case (Inl e)
        with sh Returned False show ?thesis
          by (simp add: excel_sheet_def sheet_segment_def warn_def)
      next
        case (Inr found)
        obtain h header where found: "found = (h, header)" by (cases found)
        have "excel_extract name (get_rent_type_from_sheet name) h 0 (drop (h + 1) sheet_rows)
              = kept_of_sheet name h (drop (h + 1) sheet_rows)"
          unfolding kept_of_sheet_def by (rule excel_extract_closed)
        with sh Returned False Inr found show ?thesis
          by (simp add: excel_sheet_def sheet_segment_def warn_def Let_def)
      qed
    qed
  qed
qed

lemma excel_fold_segments:
  "x_all_rows (foldl excel_sheet st sheets) = x_all_rows st @ concat (map sheet_segment sheets)"
  by (induction sheets arbitrary: st) (simp_all add: excel_sheet_segment)

lemma parse_excel_rows:
  "parse_excel w file_path = Inr res \<Longrightarrow> load_workbook w file_path = Returned sheets \<Longrightarrow>
   rows res = x_all_rows (foldl excel_sheet init_excel_state sheets)"
  by (auto simp: parse_excel_def Let_def raise_error_def split: if_splits prod.splits)

lemma parse_excel_segments:
  assumes "parse_excel w file_path = Inr res" "load_workbook w file_path = Returned sheets"
  shows "rows res = concat (map sheet_segment sheets)"
  using parse_excel_rows [OF assms] by (simp add: excel_fold_segments init_excel_state_def)

lemma pdf_collect_fields:
  "p_all_rows (pdf_collect p st) = p_all_rows st @ kept_of_table p (p_seen_headers st) (p_data_rows st)"
  "p_header_found (pdf_collect p st) = p_header_found st"
  "p_seen_headers (pdf_collect p st) = p_seen_headers st"
  by (simp_all add: pdf_collect_def kept_of_table_def pdf_extract_closed)

lemma pdf_table_later:
  assumes "p_header_found st" "t \<noteq> []"
  shows "p_all_rows (pdf_table st (p, t)) =
           p_all_rows st @ kept_of_table p (p_seen_headers st)
             (case t of [] \<Rightarrow> []
              | first_row # others \<Rightarrow>
                  if header_sig first_row \<in> set (p_seen_headers st) then others else t)"
    and "p_header_found (pdf_table st (p, t))"
    and "p_seen_headers (pdf_table st (p, t)) = p_seen_headers st"
  using assms by (cases t; simp add: pdf_table_def pdf_collect_fields)+

lemma pdf_table_first:
  assumes "\<not> p_header_found st" "find_header_row t = Inr (h, header)"
  shows "p_all_rows (pdf_table st (p, t)) =
           p_all_rows st @ kept_of_table p (List.insert (header_sig header) (p_seen_headers st))
             (drop (h + 1) t)"
    and "p_header_found (pdf_table st (p, t))"
    and "p_seen_headers (pdf_table st (p, t)) = List.insert (header_sig header) (p_seen_headers st)"
  using assms by (simp_all add: pdf_table_def pdf_collect_fields)

lemma pdf_table_none:
  assumes "\<not> p_header_found st" "find_header_row t = Inl e"
  shows "pdf_table st (p, t) = st"
  using assms by (simp add: pdf_table_def)

lemma later_fold:
  assumes "p_header_found st" "\<forall>ti\<in>set tables. snd ti \<noteq> []"
  shows "p_all_rows (foldl pdf_table st tables) =
           p_all_rows st @ concat (later_segments (p_seen_headers st) tables)"
  using assms
proof (induction tables arbitrary: st)
  case Nil
  then show ?case by simp
next
  case (Cons ti tables)
  obtain p t where ti: "ti = (p, t)" by (cases ti)
  with Cons.prems have t: "t \<noteq> []" and rest: "\<forall>ti\<in>set tables. snd ti \<noteq> []"
    by simp_all
  note step = pdf_table_later [OF Cons.prems(1) t, of p]
  from Cons.IH [OF step(2) rest] show ?case
    by (simp add: ti step(1,3))
qed

lemma merge_fold:
  assumes "\<not> p_header_found st" "p_seen_headers st = []" "\<forall>ti\<in>set tables. snd ti \<noteq> []"
  shows "p_all_rows (foldl pdf_table st tables) = p_all_rows st @ concat (merged_segments tables)"
  using assms
proof (induction tables arbitrary: st)
  case Nil
  then show ?case by simp
next
  case (Cons ti tables)
  obtain p t where ti: "ti = (p, t)" by (cases ti)
  from Cons.prems have rest: "\<forall>ti\<in>set tables. snd ti \<noteq> []"
    by simp
  show ?case
  proof (cases "find_header_row t")
    case (Inl e)
    from pdf_table_none [OF Cons.prems(1) Inl] Cons.IH [OF Cons.prems(1,2) rest] show ?thesis
      by (simp add: ti Inl)
  next
    case (Inr found)
    obtain h header where found: "find_header_row t = Inr (h, header)"
      using Inr by (cases found) simp
    note step = pdf_table_first [OF Cons.prems(1) found, of p]
    from later_fold [OF step(2) rest] show ?thesis
      by (simp add: ti found step(1,3) Cons.prems(2))
  qed
qed

lemma merge_tables_segments:
  "\<forall>ti\<in>set tables. snd ti \<noteq> [] \<Longrightarrow>
   p_all_rows (merge_tables tables) = concat (merged_segments tables)"
  using merge_fold [of init_pdf_state tables]
  by (simp add: merge_tables_def init_pdf_state_def)

lemma collect_tables_nonempty: "\<forall>ti\<in>set (collect_tables n pages). snd ti \<noteq> []"
  by (induction pages arbitrary: n) auto

lemma ocr_loop_nonempty: "\<forall>ti\<in>set (fst (ocr_loop n images)). snd ti \<noteq> []"
proof (induction images arbitrary: n)
  case Nil
  show ?case by simp
next
  case (Cons img images)
  from Cons [of "Suc n"] show ?case
    by (cases img) (auto split: prod.splits)
qed

lemma pdf_finish_rows:
  "pdf_finish fp pages tf ocr ws conf all_tables = Inr res \<Longrightarrow>
   rows res = p_all_rows (merge_tables all_tables)"
  by (auto simp: pdf_finish_def Let_def raise_error_def split: if_splits prod.splits)

lemma parse_pdf_tables:
  assumes "parse_pdf w file_path = Inr res" "extract_tables w file_path = Returned pages"
    "collect_tables 1 pages \<noteq> []"
  shows "rows res = concat (merged_segments (collect_tables 1 pages))"
proof -
  from assms have "pdf_finish file_path (length pages) (length (collect_tables 1 pages)) False []
                     High (collect_tables 1 pages) = Inr res"
    by (simp add: parse_pdf_def Let_def)
  from pdf_finish_rows [OF this] show ?thesis
    by (simp only: merge_tables_segments [OF collect_tables_nonempty])
qed

lemma parse_pdf_scanned:
  assumes "parse_pdf w file_path = Inr res" "extract_tables w file_path = Returned pages"
    "collect_tables 1 pages = []" "image_to_string w file_path = Returned images"
  shows "rows res = concat (merged_segments (fst (ocr_loop 1 images)))"
proof -
  from assms have "pdf_finish file_path (length pages) 0 True
                     (''No tables found with pdfplumber, attempting OCR'' # snd (ocr_loop 1 images))
                     Low (fst (ocr_loop 1 images)) = Inr res"
    by (simp add: parse_pdf_def Let_def extract_tables_with_ocr_def split: prod.splits)
  from pdf_finish_rows [OF this] show ?thesis
    by (simp only: merge_tables_segments [OF ocr_loop_nonempty])
qed

lemma kept_of_sheet_stops:
  "is_end_row s \<Longrightarrow> kept_of_sheet name h (pre @ s # post) = kept_of_sheet name h pre"
proof -
  assume s: "is_end_row s"
  have "takeWhile (\<lambda>r. \<not> is_end_row r) (pre @ s # post) = takeWhile (\<lambda>r. \<not> is_end_row r) pre"
    using s by (induction pre) simp_all
  then show ?thesis by (simp add: kept_of_sheet_def)
qed

lemma kept_of_table_member:
  assumes "j < length data_rows" "\<not> is_end_row (data_rows ! j)"
    "2 \<le> non_empty_count (map cell_str (data_rows ! j))"
    "row_sig (map cell_str (data_rows ! j)) \<notin> set seen"
  shows "\<lparr>raw = map cell_str (data_rows ! j), source = page_source p, row_num = j + 1,
          rent_type = None\<rparr> \<in> set (kept_of_table p seen data_rows)"
proof -
  from assms(1) have "(j, data_rows ! j) \<in> set (enumerate 0 data_rows)"
    by (simp add: in_set_enumerate_eq)
  with assms(2-4) show ?thesis
    unfolding kept_of_table_def by (auto simp: image_iff intro!: bexI [of _ "(j, data_rows ! j)"])
qed

lemma kept_of_table_after:
  assumes "j < length post" "\<not> is_end_row (post ! j)"
    "2 \<le> non_empty_count (map cell_str (post ! j))"
    "row_sig (map cell_str (post ! j)) \<notin> set seen"
  shows "\<lparr>raw = map cell_str (post ! j), source = page_source p, row_num = length pre + j + 2,
          rent_type = None\<rparr> \<in> set (kept_of_table p seen (pre @ s # post))"
proof -
  let ?d = "pre @ s # post"
  have at: "?d ! (length pre + 1 + j) = post ! j"
    by (simp add: nth_append)
  have "length pre + 1 + j < length ?d" using assms(1) by simp
  from kept_of_table_member [OF this, of seen p] assms(2-4)
  have "\<lparr>raw = map cell_str (post ! j), source = page_source p, row_num = length pre + 1 + j + 1,
          rent_type = None\<rparr> \<in> set (kept_of_table p seen ?d)"
    unfolding at by blast
  then show ?thesis by (simp add: add.commute add.left_commute)
qed

lemma total_scan_state:
  "collect_tables (Suc 0) [[]] = []"
  "fst (ocr_loop (Suc 0) total_scan) \<noteq> []"
  "p_header_found (merge_tables (fst (ocr_loop (Suc 0) total_scan)))"
  "p_all_rows (merge_tables (fst (ocr_loop (Suc 0) total_scan))) \<noteq> []"
  by code_simp+

lemma total_scan_parsed: "\<not> isl (parse_pdf total_scan_world ''scan.pdf'')"
  by (simp add: parse_pdf_def total_scan_world_def Let_def pdf_finish_def total_scan_state
      extract_tables_with_ocr_def split_beta)

section \<open>Table segmenter\<close>

lemma is_end_row_iff:
  "is_end_row r \<longleftrightarrow>
     list_all (\<lambda>c. \<not> cell_nonblank c) r \<or> list_ex cell_has_end_keyword (take 3 r)"
  by (cases r) (auto simp: is_end_row_def filter_empty_conv list_all_iff)

lemma kept_of_sheet_before:
  "list_all (\<lambda>x. row_num x < h + length data_rows + 2) (kept_of_sheet name h data_rows)"
proof -
  have "length (takeWhile (\<lambda>r. \<not> is_end_row r) data_rows) \<le> length data_rows"
    by (rule length_takeWhile_le)
  then show ?thesis
    unfolding kept_of_sheet_def list_all_iff by (auto simp: in_set_enumerate_eq)
qed

lemma kept_of_sheet_before_sentinel:
  assumes "is_end_row s"
  shows "list_all (\<lambda>x. row_num x < h + length pre + 2) (kept_of_sheet name h (pre @ s # post))"
  unfolding kept_of_sheet_stops [OF assms] by (rule kept_of_sheet_before)

text \<open>
  C6. A row is a sentinel when it is entirely empty or one of its first three cells holds a
  terminal keyword. The rows of a parsed workbook are, sheet after sheet, the rows kept of
  the rows below the header of the sheet, and those stop at the first sentinel: when the rows
  below the header are \<open>pre @ s # post\<close> with a sentinel \<open>s\<close>, what is kept is what is kept of
  \<open>pre\<close>, and every row kept has a row number below that of \<open>s\<close>. The rows of a parsed PDF
  are, table after table of its pages (or of the recognised text, when the pages hold no
  table), the rows kept of the data rows of the table, and there a sentinel is skipped: when
  the data rows are \<open>pre @ s # post\<close>, every row of \<open>post\<close> that is no sentinel itself, has
  two cells that are not blank and does not repeat the header is kept, with its position
  among the data rows as row number.
\<close>

theorem sentinel_stops_sheet_not_pdf:
  "(is_end_row s \<longleftrightarrow>
      list_all (\<lambda>c. \<not> cell_nonblank c) s \<or> list_ex cell_has_end_keyword (take 3 s))
   \<and> (parse_excel w file_path = Inr res \<and> load_workbook w file_path = Returned sheets \<longrightarrow>
        rows res = concat (map sheet_segment sheets))
   \<and> (is_end_row s \<longrightarrow>
        kept_of_sheet name h (pre @ s # post) = kept_of_sheet name h pre
        \<and> list_all (\<lambda>x. row_num x < h + length pre + 2) (kept_of_sheet name h (pre @ s # post)))
   \<and> (parse_pdf w file_path = Inr res \<and> extract_tables w file_path = Returned pages
        \<and> collect_tables 1 pages \<noteq> [] \<longrightarrow>
        rows res = concat (merged_segments (collect_tables 1 pages)))
   \<and> (parse_pdf w file_path = Inr res \<and> extract_tables w file_path = Returned pages
        \<and> collect_tables 1 pages = [] \<and> image_to_string w file_path = Returned images \<longrightarrow>
        rows res = concat (merged_segments (fst (ocr_loop 1 images))))
   \<and> (is_end_row s \<and> j < length post \<and> \<not> is_end_row (post ! j)
        \<and> 2 \<le> non_empty_count (map cell_str (post ! j))
        \<and> row_sig (map cell_str (post ! j)) \<notin> set seen \<longrightarrow>
        \<lparr>raw = map cell_str (post ! j), source = page_source p, row_num = length pre + j + 2,
         rent_type = None\<rparr> \<in> set (kept_of_table p seen (pre @ s # post)))"
  using is_end_row_iff [of s] parse_excel_segments [of w file_path res sheets]
    kept_of_sheet_stops [of s name h pre post]
    kept_of_sheet_before_sentinel [of s h pre name post]
    parse_pdf_tables [of w file_path res pages]
    parse_pdf_scanned [of w file_path res pages images]
    kept_of_table_after [of j post seen p pre s]
  by blast

lemma total_sheet_state:
  "x_header_found (foldl excel_sheet init_excel_state total_sheets)"
  "x_all_rows (foldl excel_sheet init_excel_state total_sheets) \<noteq> []"
  by code_simp+

lemma total_sheet_parsed: "\<not> isl (parse_excel total_sheet_world ''roll.xlsx'')"
  by (simp add: parse_excel_def total_sheet_world_def Let_def total_sheet_state split: prod.splits)

lemma total_pdf_state:
  "collect_tables (Suc 0) total_pages \<noteq> []"
  "p_header_found (merge_tables (collect_tables (Suc 0) total_pages))"
  "p_all_rows (merge_tables (collect_tables (Suc 0) total_pages)) \<noteq> []"
  by code_simp+

lemma total_pdf_parsed: "\<not> isl (parse_pdf total_pdf_world ''roll.pdf'')"
  by (simp add: parse_pdf_def total_pdf_world_def Let_def pdf_finish_def total_pdf_state
      split: prod.splits)

lemma total_segments:
  "concat (map sheet_segment total_sheets) =
     [\<lparr>raw = [''A1'', ''50'', ''1000''], source = ''Ark1'', row_num = 2, rent_type = None\<rparr>]"
  "concat (merged_segments (collect_tables 1 total_pages)) =
     [\<lparr>raw = [''A1'', ''50'', ''1000''], source = ''page_1'', row_num = 1, rent_type = None\<rparr>,
      \<lparr>raw = [''A2'', ''60'', ''2000''], source = ''page_1'', row_num = 3, rent_type = None\<rparr>,
      \<lparr>raw = [''A1'', ''50'', ''1000''], source = ''page_2'', row_num = 1, rent_type = None\<rparr>,
      \<lparr>raw = [''A2'', ''60'', ''2000''], source = ''page_2'', row_num = 3, rent_type = None\<rparr>]"
  "concat (merged_segments (fst (ocr_loop 1 total_scan))) =
     [\<lparr>raw = [''A1'', ''50'', ''1000''], source = ''page_1'', row_num = 1, rent_type = None\<rparr>,
      \<lparr>raw = [''A2'', ''60'', ''2000''], source = ''page_1'', row_num = 3, rent_type = None\<rparr>]"
  by code_simp+

lemma total_facts:
  "is_end_row total_row"
  "0 < length rows_after_total"
  "\<not> is_end_row (rows_after_total ! 0)"
  "2 \<le> non_empty_count (map cell_str (rows_after_total ! 0))"
  "row_sig (map cell_str (rows_after_total ! 0)) \<notin> set [header_sig total_header]"
  "map cell_str (rows_after_total ! 0) = [''A2'', ''60'', ''2000'']"
  "page_source 1 = ''page_1''"
  "length rows_before_total + 0 + 2 = 3"
  "collect_tables 1 total_pages \<noteq> []"
  "collect_tables 1 [[]] = []"
  "kept_of_sheet ''Ark1'' 0 rows_before_total =
     [\<lparr>raw = [''A1'', ''50'', ''1000''], source = ''Ark1'', row_num = 2, rent_type = None\<rparr>]"
  by code_simp+

theorem sentinel_stops_sheet_not_pdf_witness:
  "is_end_row total_row
   \<and> load_workbook total_sheet_world ''roll.xlsx''
       = Returned [(''Ark1'', Returned (total_header # rows_before_total @ total_row # rows_after_total))]
   \<and> \<not> isl (parse_excel total_sheet_world ''roll.xlsx'')
   \<and> rows (projr (parse_excel total_sheet_world ''roll.xlsx'')) =
       [\<lparr>raw = [''A1'', ''50'', ''1000''], source = ''Ark1'', row_num = 2, rent_type = None\<rparr>]
   \<and> kept_of_sheet ''Ark1'' 0 (rows_before_total @ total_row # rows_after_total) =
       [\<lparr>raw = [''A1'', ''50'', ''1000''], source = ''Ark1'', row_num = 2, rent_type = None\<rparr>]
   \<and> extract_tables total_pdf_world ''roll.pdf''
       = Returned [[total_header # rows_before_total @ total_row # rows_after_total],
                   [total_header # rows_before_total @ total_row # rows_after_total]]
   \<and> \<not> isl (parse_pdf total_pdf_world ''roll.pdf'')
   \<and> rows (projr (parse_pdf total_pdf_world ''roll.pdf'')) =
       [\<lparr>raw = [''A1'', ''50'', ''1000''], source = ''page_1'', row_num = 1, rent_type = None\<rparr>,
        \<lparr>raw = [''A2'', ''60'', ''2000''], source = ''page_1'', row_num = 3, rent_type = None\<rparr>,
        \<lparr>raw = [''A1'', ''50'', ''1000''], source = ''page_2'', row_num = 1, rent_type = None\<rparr>,
        \<lparr>raw = [''A2'', ''60'', ''2000''], source = ''page_2'', row_num = 3, rent_type = None\<rparr>]
   \<and> \<not> isl (parse_pdf total_scan_world ''scan.pdf'')
   \<and> rows (projr (parse_pdf total_scan_world ''scan.pdf'')) =
       [\<lparr>raw = [''A1'', ''50'', ''1000''], source = ''page_1'', row_num = 1, rent_type = None\<rparr>,
        \<lparr>raw = [''A2'', ''60'', ''2000''], source = ''page_1'', row_num = 3, rent_type = None\<rparr>]
   \<and> \<lparr>raw = [''A2'', ''60'', ''2000''], source = ''page_1'', row_num = 3, rent_type = None\<rparr>
       \<in> set (kept_of_table 1 [header_sig total_header]
                (rows_before_total @ total_row # rows_after_total))"
proof -
  let ?x = "projr (parse_excel total_sheet_world ''roll.xlsx'')"
  let ?p = "projr (parse_pdf total_pdf_world ''roll.pdf'')"
  let ?o = "projr (parse_pdf total_scan_world ''scan.pdf'')"
  have x: "parse_excel total_sheet_world ''roll.xlsx'' = Inr ?x"
    using total_sheet_parsed by simp
  have p: "parse_pdf total_pdf_world ''roll.pdf'' = Inr ?p"
    using total_pdf_parsed by simp
  have o: "parse_pdf total_scan_world ''scan.pdf'' = Inr ?o"
    using total_scan_parsed by simp
  have lx: "load_workbook total_sheet_world ''roll.xlsx'' = Returned total_sheets"
    by (simp add: total_sheet_world_def)
  have lp: "extract_tables total_pdf_world ''roll.pdf'' = Returned total_pages"
    by (simp add: total_pdf_world_def)
  have lo: "extract_tables total_scan_world ''scan.pdf'' = Returned [[]]"
    "image_to_string total_scan_world ''scan.pdf'' = Returned total_scan"
    by (simp_all add: total_scan_world_def)
  note tx = sentinel_stops_sheet_not_pdf
    [of total_row total_sheet_world "''roll.xlsx''" ?x total_sheets "''Ark1''" 0
        rows_before_total rows_after_total _ _ 0 "[header_sig total_header]" 1]
  from tx x lx have 1: "rows ?x = concat (map sheet_segment total_sheets)"
    by blast
  from tx total_facts(1)
  have 2: "kept_of_sheet ''Ark1'' 0 (rows_before_total @ total_row # rows_after_total)
           = kept_of_sheet ''Ark1'' 0 rows_before_total"
    by blast
  from tx total_facts(1-5)
  have 3: "\<lparr>raw = map cell_str (rows_after_total ! 0), source = page_source 1,
            row_num = length rows_before_total + 0 + 2, rent_type = None\<rparr>
           \<in> set (kept_of_table 1 [header_sig total_header]
                    (rows_before_total @ total_row # rows_after_total))"
    by blast
  note tp = sentinel_stops_sheet_not_pdf
    [of _ total_pdf_world "''roll.pdf''" ?p _ _ _ _ _ total_pages]
  from tp p lp total_facts(9)
  have 4: "rows ?p = concat (merged_segments (collect_tables 1 total_pages))"
    by blast
  note to = sentinel_stops_sheet_not_pdf
    [of _ total_scan_world "''scan.pdf''" ?o _ _ _ _ _ "[[]]" total_scan]
  from to o lo total_facts(10)
  have 5: "rows ?o = concat (merged_segments (fst (ocr_loop 1 total_scan)))"
    by blast
  have 6: "total_sheets = [(''Ark1'', Returned (total_header # rows_before_total @ total_row # rows_after_total))]"
    "total_pages = [[total_header # rows_before_total @ total_row # rows_after_total],
                   [total_header # rows_before_total @ total_row # rows_after_total]]"
    by (simp_all add: total_sheets_def total_pages_def total_table_def)
  show ?thesis
    using total_facts(1) total_sheet_parsed total_pdf_parsed total_scan_parsed
      1 [unfolded total_segments(1)] 2 [unfolded total_facts(11)]
      3 [unfolded total_facts(6,7,8)] 4 [unfolded total_segments(2)]
      5 [unfolded total_segments(3)] lx [unfolded 6] lp [unfolded 6]
    by blast
qed

section \<open>Row numbers\<close>

lemma excel_extract_bounds:
  "x \<in> set (excel_extract name rt h off rs) \<Longrightarrow> h + off + 2 \<le> row_num x \<and> source x = name"
proof (induction rs arbitrary: off)
  case Nil
  then show ?case by simp
next
  case (Cons r rs)
  show ?case
  proof (cases "is_end_row r")
    case True
    with Cons.prems show ?thesis by simp
  next
    case False
    show ?thesis
    proof (cases "non_empty_count (map cell_str r) < 2")
      case True
      with False Cons.prems have "x \<in> set (excel_extract name rt h (Suc off) rs)"
        by (simp add: Let_def)
      from Cons.IH [OF this] show ?thesis by simp
    next
      case few: False
      with False Cons.prems
      have "x = \<lparr>raw = map cell_str r, source = name, row_num = h + off + 2, rent_type = rt\<rparr>
            \<or> x \<in> set (excel_extract name rt h (Suc off) rs)"
        by (simp add: Let_def)
      then show ?thesis
      proof
        assume "x = \<lparr>raw = map cell_str r, source = name, row_num = h + off + 2, rent_type = rt\<rparr>"
        then show ?thesis by simp
      next
        assume "x \<in> set (excel_extract name rt h (Suc off) rs)"
        from Cons.IH [OF this] show ?thesis by simp
      qed
    qed
  qed
qed

lemma excel_extract_increasing: "increasing (excel_extract name rt h off rs)"
proof (induction rs arbitrary: off)
  case Nil
  then show ?case by (simp add: increasing_def)
next
  case (Cons r rs)
  have later: "\<forall>x\<in>set (excel_extract name rt h (Suc off) rs). h + off + 2 < row_num x"
    using excel_extract_bounds [of _ name rt h "Suc off" rs] by fastforce
  from Cons.IH [of "Suc off"] later show ?case
    by (simp add: increasing_def Let_def)
qed

lemma excel_sheet_rows:
  "\<exists>new. x_all_rows (excel_sheet st (name, reading)) = x_all_rows st @ new
         \<and> increasing new \<and> (\<forall>x\<in>set new. source x = name)"
proof (cases reading)
  case (Raised msg)
  then show ?thesis
    by (simp add: excel_sheet_def warn_def increasing_def)
next
  case (Returned sheet_rows)
  show ?thesis
  proof (cases "length sheet_rows < 3")
    case True
    with Returned show ?thesis
      by (simp add: excel_sheet_def warn_def increasing_def)
  next
    case False
    show ?thesis
    proof (cases "find_header_row sheet_rows")
      case (Inl e)
      with False Returned show ?thesis
        by (simp add: excel_sheet_def warn_def increasing_def)
    next
      case (Inr found)
      obtain header_idx header where found: "found = (header_idx, header)"
        by (cases found)
      define new where "new = excel_extract name (get_rent_type_from_sheet name) header_idx 0
                                 (drop (header_idx + 1) sheet_rows)"
      have "x_all_rows (excel_sheet st (name, reading)) = x_all_rows st @ new"
        using False Returned Inr found
        by (simp add: excel_sheet_def warn_def Let_def new_def)
      moreover have "increasing new"
        unfolding new_def by (rule excel_extract_increasing)
      moreover have "\<forall>x\<in>set new. source x = name"
        unfolding new_def using excel_extract_bounds by blast
      ultimately show ?thesis by blast
    qed
  qed
qed


lemma with_source_append: "with_source l (xs @ ys) = with_source l xs @ with_source l ys"
  by (simp add: with_source_def)

lemma with_source_same: "\<forall>x\<in>set xs. source x = l \<Longrightarrow> with_source l xs = xs"
  by (simp add: with_source_def)

lemma with_source_other: "\<forall>x\<in>set xs. source x \<noteq> l \<Longrightarrow> with_source l xs = []"
  by (simp add: with_source_def)

lemma excel_fold_increasing:
  assumes "distinct (map fst sheets)"
    and "\<forall>x\<in>set (x_all_rows st). source x \<notin> set (map fst sheets)"
    and "\<forall>l. increasing (with_source l (x_all_rows st))"
  shows "increasing (with_source l (x_all_rows (foldl excel_sheet st sheets)))"
  using assms
proof (induction sheets arbitrary: st)
  case Nil
  then show ?case by simp
next
  case (Cons sh sheets)
  obtain name reading where sh: "sh = (name, reading)" by (cases sh)
  from excel_sheet_rows [of st name reading]
  obtain new where new: "x_all_rows (excel_sheet st (name, reading)) = x_all_rows st @ new"
    and inc: "increasing new" and src: "\<forall>x\<in>set new. source x = name"
    by blast
  from Cons.prems(1) sh have d: "distinct (map fst sheets)" and fresh: "name \<notin> set (map fst sheets)"
    by simp_all
  from Cons.prems(2) sh have old: "\<forall>x\<in>set (x_all_rows st). source x \<noteq> name"
    and old': "\<forall>x\<in>set (x_all_rows st). source x \<notin> set (map fst sheets)"
    by auto
  have a: "\<forall>x\<in>set (x_all_rows (excel_sheet st sh)). source x \<notin> set (map fst sheets)"
    using new src old' fresh sh by auto
  have b: "\<forall>l. increasing (with_source l (x_all_rows (excel_sheet st sh)))"
  proof
    fix l
    show "increasing (with_source l (x_all_rows (excel_sheet st sh)))"
    proof (cases "l = name")
      case True
      with old have "with_source l (x_all_rows st) = []"
        by (simp add: with_source_other)
      moreover from True src have "with_source l new = new"
        by (simp add: with_source_same)
      ultimately show ?thesis
        using inc by (simp add: sh new with_source_append)
    next
      case False
      with src have "with_source l new = []"
        by (simp add: with_source_other)
      then show ?thesis
        using Cons.prems(3) by (simp add: sh new with_source_append)
    qed
  qed
  from Cons.IH [OF d a b] show ?case by simp
qed

lemma excel_row_numbers:
  assumes "parse_excel w file_path = Inr res" "load_workbook w file_path = Returned sheets"
    "distinct (map fst sheets)"
  shows "increasing (with_source l (rows res))"
proof -
  have "increasing (with_source l (x_all_rows (foldl excel_sheet init_excel_state sheets)))"
    by (rule excel_fold_increasing [OF assms(3)])
       (simp_all add: init_excel_state_def with_source_def increasing_def)
  with parse_excel_rows [OF assms(1,2)] show ?thesis by simp
qed

lemma pdf_extract_bounds:
  "x \<in> set (pdf_extract p seen off rs) \<Longrightarrow> off + 1 \<le> row_num x \<and> source x = page_source p"
proof (induction rs arbitrary: off)
  case Nil
  then show ?case by simp
next
  case (Cons r rs)
  from Cons.prems
  have "x = \<lparr>raw = map cell_str r, source = page_source p, row_num = off + 1, rent_type = None\<rparr>
        \<or> x \<in> set (pdf_extract p seen (Suc off) rs)"
    by (simp add: Let_def split: if_splits)
  then show ?case
  proof
    assume "x = \<lparr>raw = map cell_str r, source = page_source p, row_num = off + 1, rent_type = None\<rparr>"
    then show ?thesis by simp
  next
    assume "x \<in> set (pdf_extract p seen (Suc off) rs)"
    from Cons.IH [OF this] show ?thesis by simp
  qed
qed

lemma pdf_extract_increasing: "increasing (pdf_extract p seen off rs)"
proof (induction rs arbitrary: off)
  case Nil
  then show ?case by (simp add: increasing_def)
next
  case (Cons r rs)
  have later: "\<forall>x\<in>set (pdf_extract p seen (Suc off) rs). off + 1 < row_num x"
    using pdf_extract_bounds [of _ p seen "Suc off" rs] by fastforce
  from Cons.IH [of "Suc off"] later show ?case
    by (simp add: increasing_def Let_def)
qed

lemma kept_of_table_segment: "segment_of (p, t) (kept_of_table p seen data_rows)"
proof -
  have "kept_of_table p seen data_rows = pdf_extract p seen 0 data_rows"
    by (simp add: kept_of_table_def pdf_extract_closed)
  then show ?thesis
    using pdf_extract_increasing [of p seen 0 data_rows] pdf_extract_bounds [of _ p seen 0 data_rows]
    by (simp add: segment_of_def list_all_iff)
qed

lemma later_segments_each: "list_all2 segment_of tables (later_segments seen tables)"
proof (induction tables)
  case Nil
  show ?case by simp
next
  case (Cons ti tables)
  obtain p t where ti: "ti = (p, t)" by (cases ti)
  from Cons show ?case by (simp add: ti kept_of_table_segment)
qed

lemma merged_segments_each: "list_all2 segment_of tables (merged_segments tables)"
proof (induction tables)
  case Nil
  show ?case by simp
next
  case (Cons ti tables)
  obtain p t where ti: "ti = (p, t)" by (cases ti)
  show ?case
  proof (cases "find_header_row t")
    case (Inl e)
    with Cons show ?thesis
      by (simp add: ti segment_of_def increasing_def)
  next
    case (Inr found)
    obtain h header where "find_header_row t = Inr (h, header)"
      using Inr by (cases found) simp
    then show ?thesis
      by (simp add: ti kept_of_table_segment later_segments_each)
  qed
qed

lemma one_page_tables:
  "collect_tables (Suc 0) one_page = page_tables"
  by code_simp

lemma one_page_merge:
  "p_header_found (merge_tables page_tables)"
  "p_all_rows (merge_tables page_tables) =
     [\<lparr>raw = [''A1'', ''50'', ''1000''], source = ''page_1'', row_num = 1, rent_type = None\<rparr>,
      \<lparr>raw = [''B1'', ''60'', ''2000''], source = ''page_1'', row_num = 1, rent_type = None\<rparr>,
      \<lparr>raw = [''B2'', ''70'', ''3000''], source = ''page_1'', row_num = 2, rent_type = None\<rparr>]"
  "page_tables \<noteq> []"
  by code_simp+

lemma one_page_parsed:
  "\<not> isl (parse_pdf one_page_world ''roll.pdf'')"
  "rows (projr (parse_pdf one_page_world ''roll.pdf'')) = p_all_rows (merge_tables page_tables)"
  by (simp_all add: parse_pdf_def one_page_world_def one_page_tables pdf_finish_def Let_def
      one_page_merge split: prod.splits)

text \<open>
  C7, as the specification states it, fails for a PDF: the label is the page, the row numbers
  start again at 1 in every table, and a page can hold several tables. For one page with two
  tables the rows labelled \<open>page_1\<close> carry the row numbers 1, 1, 2.
\<close>

theorem pdf_page_label_repeats_row_num:
  "\<not> isl (parse_pdf one_page_world ''roll.pdf'')
   \<and> map source (rows (projr (parse_pdf one_page_world ''roll.pdf'')))
       = [''page_1'', ''page_1'', ''page_1'']
   \<and> map row_num (rows (projr (parse_pdf one_page_world ''roll.pdf''))) = [1, 1, 2]
   \<and> \<not> increasing (with_source ''page_1'' (rows (projr (parse_pdf one_page_world ''roll.pdf''))))"
  unfolding one_page_parsed(2) one_page_merge(2)
  by (simp add: one_page_parsed(1) increasing_def with_source_def)

text \<open>
  C7, amended. For every successfully parsed spreadsheet, the names of whose sheets are
  pairwise distinct, the rows of the result that share one source label have strictly
  increasing row numbers. For every successfully parsed PDF the rows of the result are, in
  order, one segment for each table of its pages, the pages being numbered from 1 (for each
  page with recognised text, when the pages hold no table): the segment of a table is the
  rows kept of it, they carry the label of the page of the table, and their row numbers,
  which are their positions among the data rows of the table, are strictly increasing.
\<close>

theorem row_numbers_increase:
  "(parse_excel w file_path = Inr res \<and> load_workbook w file_path = Returned sheets
      \<and> distinct (map fst sheets) \<longrightarrow>
      (\<forall>label. increasing (with_source label (rows res))))
   \<and> (parse_pdf w file_path = Inr res \<and> extract_tables w file_path = Returned pages
        \<and> collect_tables 1 pages \<noteq> [] \<longrightarrow>
        rows res = concat (merged_segments (collect_tables 1 pages))
        \<and> list_all2 segment_of (collect_tables 1 pages)
             (merged_segments (collect_tables 1 pages)))
   \<and> (parse_pdf w file_path = Inr res \<and> extract_tables w file_path = Returned pages
        \<and> collect_tables 1 pages = [] \<and> image_to_string w file_path = Returned images \<longrightarrow>
        rows res = concat (merged_segments (fst (ocr_loop 1 images)))
        \<and> list_all2 segment_of (fst (ocr_loop 1 images))
             (merged_segments (fst (ocr_loop 1 images))))"
  using excel_row_numbers [of w file_path res sheets]
    parse_pdf_tables [of w file_path res pages]
    parse_pdf_scanned [of w file_path res pages images]
    merged_segments_each [of "collect_tables 1 pages"]
    merged_segments_each [of "fst (ocr_loop 1 images)"]
  by blast

lemma one_sheet_state:
  "x_header_found (foldl excel_sheet init_excel_state one_sheet)"
  "x_all_rows (foldl excel_sheet init_excel_state one_sheet) \<noteq> []"
  "distinct (map fst one_sheet)"
  by code_simp+

lemma one_sheet_parsed: "\<not> isl (parse_excel one_sheet_world ''roll.xlsx'')"
  by (simp add: parse_excel_def one_sheet_world_def Let_def one_sheet_state split: prod.splits)

lemma one_page_segments:
  "collect_tables 1 one_page \<noteq> []"
  "collect_tables 1 one_page = [(1, first_table), (1, second_table)]"
  "merged_segments (collect_tables 1 one_page) =
     [[\<lparr>raw = [''A1'', ''50'', ''1000''], source = ''page_1'', row_num = 1, rent_type = None\<rparr>],
      [\<lparr>raw = [''B1'', ''60'', ''2000''], source = ''page_1'', row_num = 1, rent_type = None\<rparr>,
       \<lparr>raw = [''B2'', ''70'', ''3000''], source = ''page_1'', row_num = 2, rent_type = None\<rparr>]]"
  "fst (ocr_loop 1 total_scan) =
     [(1, [[Some ''Lejnr'', Some ''Areal'', Some ''Leje''], [Some ''A1'', Some ''50'', Some ''1000''],
           [Some ''Total''], [Some ''A2'', Some ''60'', Some ''2000'']])]"
  "merged_segments (fst (ocr_loop 1 total_scan)) =
     [[\<lparr>raw = [''A1'', ''50'', ''1000''], source = ''page_1'', row_num = 1, rent_type = None\<rparr>,
       \<lparr>raw = [''A2'', ''60'', ''2000''], source = ''page_1'', row_num = 3, rent_type = None\<rparr>]]"
  by code_simp+

theorem row_numbers_increase_witness:
  "\<not> isl (parse_excel one_sheet_world ''roll.xlsx'')
   \<and> load_workbook one_sheet_world ''roll.xlsx'' = Returned one_sheet
   \<and> distinct (map fst one_sheet)
   \<and> increasing (with_source ''Ark1'' (rows (projr (parse_excel one_sheet_world ''roll.xlsx''))))
   \<and> \<not> isl (parse_pdf one_page_world ''roll.pdf'')
   \<and> extract_tables one_page_world ''roll.pdf'' = Returned one_page
   \<and> collect_tables 1 one_page = [(1, first_table), (1, second_table)]
   \<and> rows (projr (parse_pdf one_page_world ''roll.pdf'')) =
       concat
        [[\<lparr>raw = [''A1'', ''50'', ''1000''], source = ''page_1'', row_num = 1, rent_type = None\<rparr>],
         [\<lparr>raw = [''B1'', ''60'', ''2000''], source = ''page_1'', row_num = 1, rent_type = None\<rparr>,
          \<lparr>raw = [''B2'', ''70'', ''3000''], source = ''page_1'', row_num = 2, rent_type = None\<rparr>]]
   \<and> list_all2 segment_of [(1, first_table), (1, second_table)]
        [[\<lparr>raw = [''A1'', ''50'', ''1000''], source = ''page_1'', row_num = 1, rent_type = None\<rparr>],
         [\<lparr>raw = [''B1'', ''60'', ''2000''], source = ''page_1'', row_num = 1, rent_type = None\<rparr>,
          \<lparr>raw = [''B2'', ''70'', ''3000''], source = ''page_1'', row_num = 2, rent_type = None\<rparr>]]
   \<and> \<not> isl (parse_pdf total_scan_world ''scan.pdf'')
   \<and> extract_tables total_scan_world ''scan.pdf'' = Returned [[]]
   \<and> collect_tables 1 [[]] = []
   \<and> image_to_string total_scan_world ''scan.pdf'' = Returned total_scan
   \<and> rows (projr (parse_pdf total_scan_world ''scan.pdf'')) =
       concat
        [[\<lparr>raw = [''A1'', ''50'', ''1000''], source = ''page_1'', row_num = 1, rent_type = None\<rparr>,
          \<lparr>raw = [''A2'', ''60'', ''2000''], source = ''page_1'', row_num = 3, rent_type = None\<rparr>]]
   \<and> list_all2 segment_of (fst (ocr_loop 1 total_scan))
        [[\<lparr>raw = [''A1'', ''50'', ''1000''], source = ''page_1'', row_num = 1, rent_type = None\<rparr>,
          \<lparr>raw = [''A2'', ''60'', ''2000''], source = ''page_1'', row_num = 3, rent_type = None\<rparr>]]"
proof -
  let ?x = "projr (parse_excel one_sheet_world ''roll.xlsx'')"
  let ?p = "projr (parse_pdf one_page_world ''roll.pdf'')"
  let ?o = "projr (parse_pdf total_scan_world ''scan.pdf'')"
  have x: "parse_excel one_sheet_world ''roll.xlsx'' = Inr ?x"
    using one_sheet_parsed by simp
  have lx: "load_workbook one_sheet_world ''roll.xlsx'' = Returned one_sheet"
    by (simp add: one_sheet_world_def)
  have p: "parse_pdf one_page_world ''roll.pdf'' = Inr ?p"
    using one_page_parsed(1) by simp
  have lp: "extract_tables one_page_world ''roll.pdf'' = Returned one_page"
    by (simp add: one_page_world_def)
  have o: "parse_pdf total_scan_world ''scan.pdf'' = Inr ?o"
    using total_scan_parsed by simp
  have lo: "extract_tables total_scan_world ''scan.pdf'' = Returned [[]]"
    "image_to_string total_scan_world ''scan.pdf'' = Returned total_scan"
    by (simp_all add: total_scan_world_def)
  have e: "collect_tables 1 [[]] = []"
    by code_simp
  note tx = row_numbers_increase [of one_sheet_world "''roll.xlsx''" ?x one_sheet]
  from tx x lx one_sheet_state(3)
  have 1: "increasing (with_source ''Ark1'' (rows ?x))"
    by blast
  note tp = row_numbers_increase [of one_page_world "''roll.pdf''" ?p _ one_page]
  from tp p lp one_page_segments(1)
  have 2: "rows ?p = concat (merged_segments (collect_tables 1 one_page))"
    "list_all2 segment_of (collect_tables 1 one_page) (merged_segments (collect_tables 1 one_page))"
    by blast+
  note to = row_numbers_increase [of total_scan_world "''scan.pdf''" ?o _ "[[]]" total_scan]
  from to o lo e
  have 3: "rows ?o = concat (merged_segments (fst (ocr_loop 1 total_scan)))"
    "list_all2 segment_of (fst (ocr_loop 1 total_scan)) (merged_segments (fst (ocr_loop 1 total_scan)))"
    by blast+
  show ?thesis
    using one_sheet_parsed lx one_sheet_state(3) 1 one_page_parsed(1) lp one_page_segments(2)
      2 [unfolded one_page_segments(3)] 2(2) [unfolded one_page_segments(3), unfolded one_page_segments(2)]
      total_scan_parsed lo e 3 [unfolded one_page_segments(5)]
    by blast
qed

section \<open>Repeated headers\<close>

text \<open>What the loop over the tables does achieve: no row it keeps has, as the loop computes the
  signature of a data row (\<open>row_sig\<close>), a signature that was stored for an accepted header;
  the first row of a later table is dropped when its signature, computed as for a header
  (\<open>header_sig\<close>), was stored; and the two signatures of a row agree when none of its cells
  holds white space only.\<close>

lemma pdf_extract_not_seen:
  "x \<in> set (pdf_extract p seen off rs) \<Longrightarrow> row_sig (raw x) \<notin> set seen"
proof (induction rs arbitrary: off)
  case Nil
  then show ?case by simp
next
  case (Cons r rs)
  from Cons.prems
  have "(x = \<lparr>raw = map cell_str r, source = page_source p, row_num = off + 1, rent_type = None\<rparr>
          \<and> row_sig (map cell_str r) \<notin> set seen)
        \<or> x \<in> set (pdf_extract p seen (Suc off) rs)"
    by (simp add: Let_def split: if_splits)
  then show ?case
  proof
    assume "x = \<lparr>raw = map cell_str r, source = page_source p, row_num = off + 1, rent_type = None\<rparr>
          \<and> row_sig (map cell_str r) \<notin> set seen"
    then show ?thesis by simp
  next
    assume "x \<in> set (pdf_extract p seen (Suc off) rs)"
    from Cons.IH [OF this] show ?thesis .
  qed
qed

lemma pdf_collect_inv:
  assumes "list_all (\<lambda>x. row_sig (raw x) \<notin> set (p_seen_headers st)) (p_all_rows st)"
    "p_header_found st"
  shows "inv_no_header_rows (pdf_collect p st)"
  using assms pdf_extract_not_seen [of _ p "p_seen_headers st" 0 "p_data_rows st"]
  by (auto simp: inv_no_header_rows_def pdf_collect_def list_all_iff)

lemma pdf_table_inv:
  assumes "inv_no_header_rows st"
  shows "inv_no_header_rows (pdf_table st (p, t))"
proof (cases "p_header_found st")
  case False
  show ?thesis
  proof (cases "find_header_row t")
    case (Inl e)
    with False assms show ?thesis by (simp add: pdf_table_def)
  next
    case (Inr found)
    obtain header_idx header where found: "found = (header_idx, header)"
      by (cases found)
    define st' where "st' = st\<lparr>p_header_row := Some (header_idx + 1),
                      p_columns := map cell_str header,
                      p_column_mapping := map_columns header,
                      p_header_found := True,
                      p_seen_headers := List.insert (header_sig header) (p_seen_headers st),
                      p_data_rows := drop (header_idx + 1) t\<rparr>"
    have eq: "pdf_table st (p, t) = pdf_collect p st'"
      using False Inr found by (simp add: pdf_table_def st'_def)
    from False assms have "p_all_rows st' = []"
      by (simp add: st'_def inv_no_header_rows_def)
    then have "list_all (\<lambda>x. row_sig (raw x) \<notin> set (p_seen_headers st')) (p_all_rows st')"
      by simp
    moreover have "p_header_found st'" by (simp add: st'_def)
    ultimately show ?thesis unfolding eq by (rule pdf_collect_inv)
  qed
next
  case True
  define st' where "st' = (case t of
                [] \<Rightarrow> st
              | first_row # others \<Rightarrow>
                  if header_sig first_row \<in> set (p_seen_headers st)
                  then st\<lparr>p_data_rows := others\<rparr>
                  else st\<lparr>p_data_rows := t\<rparr>)"
  have eq: "pdf_table st (p, t) = pdf_collect p st'"
    using True by (simp add: pdf_table_def st'_def)
  have same: "p_all_rows st' = p_all_rows st" "p_seen_headers st' = p_seen_headers st"
    "p_header_found st' = p_header_found st"
    by (simp_all add: st'_def split: list.splits)
  from assms have "list_all (\<lambda>x. row_sig (raw x) \<notin> set (p_seen_headers st')) (p_all_rows st')"
    by (simp add: same inv_no_header_rows_def)
  moreover from True have "p_header_found st'" by (simp add: same)
  ultimately show ?thesis unfolding eq by (rule pdf_collect_inv)
qed

lemma merge_inv: "inv_no_header_rows st \<Longrightarrow> inv_no_header_rows (foldl pdf_table st tables)"
proof (induction tables arbitrary: st)
  case Nil
  then show ?case by simp
next
  case (Cons ti tables)
  obtain p t where "ti = (p, t)" by (cases ti)
  with Cons show ?case by (simp add: pdf_table_inv)
qed

lemma embedded_duplicates_dropped:
  "x \<in> set (p_all_rows (merge_tables tables)) \<Longrightarrow>
   row_sig (raw x) \<notin> set (p_seen_headers (merge_tables tables))"
proof -
  have "inv_no_header_rows init_pdf_state"
    by (simp add: inv_no_header_rows_def init_pdf_state_def)
  then have "inv_no_header_rows (merge_tables tables)"
    unfolding merge_tables_def by (rule merge_inv)
  then show "x \<in> set (p_all_rows (merge_tables tables)) \<Longrightarrow>
   row_sig (raw x) \<notin> set (p_seen_headers (merge_tables tables))"
    by (simp add: inv_no_header_rows_def list_all_iff)
qed

lemma leading_duplicate_dropped:
  "p_header_found st \<Longrightarrow> header_sig first_row \<in> set (p_seen_headers st) \<Longrightarrow>
   p_all_rows (pdf_table st (p, first_row # others)) =
     p_all_rows st @ pdf_extract p (p_seen_headers st) 0 others"
  by (simp add: pdf_table_def pdf_collect_def)

lemma strip_Nil: "strip [] = []"
  by (simp add: strip_def lstrip_def rstrip_def)

lemma sig_agree:
  "list_all (\<lambda>c. cell_nonblank c \<or> \<not> truthy c) r \<Longrightarrow> header_sig r = row_sig (map cell_str r)"
proof (induction r)
  case Nil
  then show ?case by (simp add: header_sig_def row_sig_def)
next
  case (Cons c r)
  then show ?case
    by (cases c) (auto simp: header_sig_def row_sig_def cell_nonblank_def truthy_def cell_str_def
        strip_Nil)
qed

lemma blank_cell_eval:
  "p_header_row (merge_tables blank_cell_tables) = Some 1"
  "p_columns (merge_tables blank_cell_tables) = map cell_str blank_cell_header"
  "p_seen_headers (merge_tables blank_cell_tables) = [header_sig blank_cell_header]"
  "header_sig blank_cell_header = [''lejnr'', '''', ''areal'', ''leje'']"
  "row_sig (map cell_str blank_cell_header) = [''lejnr'', ''areal'', ''leje'']"
  "map raw (p_all_rows (merge_tables blank_cell_tables)) =
     [[''A1'', '''', ''50'', ''1000''], map cell_str blank_cell_header, [''A2'', '''', ''60'', ''2000'']]"
  "map row_num (p_all_rows (merge_tables blank_cell_tables)) = [1, 2, 3]"
  by code_simp+

lemma blank_cell_collect: "collect_tables (Suc 0) blank_cell_page = blank_cell_tables"
  by code_simp

lemma blank_cell_found:
  "p_header_found (merge_tables blank_cell_tables)" "blank_cell_tables \<noteq> []"
  "p_all_rows (merge_tables blank_cell_tables) \<noteq> []"
  by code_simp+

lemma blank_cell_parsed:
  "\<not> isl (parse_pdf blank_cell_world ''roll.pdf'')"
  "rows (projr (parse_pdf blank_cell_world ''roll.pdf'')) = p_all_rows (merge_tables blank_cell_tables)"
  "columns (projr (parse_pdf blank_cell_world ''roll.pdf'')) = p_columns (merge_tables blank_cell_tables)"
  by (simp_all add: parse_pdf_def blank_cell_world_def blank_cell_collect pdf_finish_def Let_def
      blank_cell_found split: prod.splits)

text \<open>
  C5. The claim is not met by the code for a header with a cell of white space only. The
  signature of the accepted header is taken over the cells that are true (\<open>if c\<close>), that of
  a data row over the cells that are not blank (\<open>if c.strip()\<close>). For the header
  \<open>["Lejnr", " ", "Areal", "Leje"]\<close> the first keeps an empty entry for the second cell and
  the second does not, so the header row repeated among the data rows is kept as the second
  of three data rows.
\<close>

theorem repeated_header_counted_as_data:
  "\<not> isl (parse_pdf blank_cell_world ''roll.pdf'')
   \<and> columns (projr (parse_pdf blank_cell_world ''roll.pdf'')) = map cell_str blank_cell_header
   \<and> blank_cell_table ! 2 = blank_cell_header
   \<and> map raw (rows (projr (parse_pdf blank_cell_world ''roll.pdf''))) =
       [[''A1'', '''', ''50'', ''1000''], map cell_str blank_cell_header,
        [''A2'', '''', ''60'', ''2000'']]
   \<and> header_sig blank_cell_header \<noteq> row_sig (map cell_str blank_cell_header)"
  unfolding blank_cell_parsed(2,3)
  by (simp add: blank_cell_eval blank_cell_parsed(1)) (simp add: blank_cell_table_def)

end
